theory Spec2Isabelle
  imports Complex_Main "HOL-Library.Word" "HOL-Library.Signed_Division"
begin

unbundle bit_operations_syntax

section \<open>Data model\<close>

text \<open>
  The program \<open>sketch\<close> approximates an image by randomly placed lines: it draws a line
  into a trial buffer, scores trial and best buffer against the target along the line
  (\<open>bdiff\<close>, \<open>calcdiff\<close>), and copies the better pixels over the others (\<open>bcopy\<close>).

  Go's \<open>int\<close> is, on a 64-bit platform, a 64-bit two's complement integer: \<open>+\<close>, \<open>-\<close>
  and \<open>*\<close> wrap around, comparisons are signed (\<open><s\<close>, \<open>\<le>s\<close>).  A colour channel is a
  \<open>uint8\<close>, and the \<open>RGBA()\<close> method of a colour returns four \<open>uint32\<close> values.
\<close>

type_synonym int64 = "64 word"
type_synonym uint8 = "8 word"
type_synonym uint32 = "32 word"

text \<open>\<open>color.RGBA\<close>: four 8-bit channels.\<close>

datatype RGBA = RGBA (cR: uint8) (cG: uint8) (cB: uint8) (cA: uint8)

text \<open>
  \<open>func (c RGBA) RGBA() (r, g, b, a uint32)\<close>: every channel widened to 16 bits by
  \<open>r = uint32(c.R); r |= r << 8\<close>.
\<close>

definition widen :: "uint8 \<Rightarrow> uint32" where
  "widen c = (ucast c) OR (push_bit 8 (ucast c))"

definition RGBA_values :: "RGBA \<Rightarrow> uint32 \<times> uint32 \<times> uint32 \<times> uint32" where
  "RGBA_values c = (widen (cR c), widen (cG c), widen (cB c), widen (cA c))"

text \<open>\<open>image.Rectangle\<close> and \<open>Point.In\<close>: \<open>Min\<close> is inclusive, \<open>Max\<close> exclusive.\<close>

record Rectangle =
  MinX :: int64
  MinY :: int64
  MaxX :: int64
  MaxY :: int64

definition Dx :: "Rectangle \<Rightarrow> int64" where
  "Dx r = MaxX r - MinX r"

definition Dy :: "Rectangle \<Rightarrow> int64" where
  "Dy r = MaxY r - MinY r"

definition In_rect :: "int64 \<Rightarrow> int64 \<Rightarrow> Rectangle \<Rightarrow> bool" where
  "In_rect x y r \<longleftrightarrow> MinX r \<le>s x \<and> x <s MaxX r \<and> MinY r \<le>s y \<and> y <s MaxY r"

text \<open>
  \<open>*image.RGBA\<close>: a rectangle and its pixels.  The byte slice and the stride of the Go
  type are left out: the pixels are a function of the coordinates.  \<open>At\<close> returns the
  zero colour \<open>color.RGBA{}\<close> outside the rectangle, \<open>Set\<close> does nothing there.
\<close>

record image =
  Rect :: Rectangle
  Pix :: "int64 \<times> int64 \<Rightarrow> RGBA"

definition At :: "image \<Rightarrow> int64 \<Rightarrow> int64 \<Rightarrow> RGBA" where
  "At img x y = (if In_rect x y (Rect img) then Pix img (x, y) else RGBA 0 0 0 0)"

definition Set_px :: "image \<Rightarrow> int64 \<Rightarrow> int64 \<Rightarrow> RGBA \<Rightarrow> image" where
  "Set_px img x y c =
     (if In_rect x y (Rect img) then img\<lparr>Pix := (Pix img)((x, y) := c)\<rparr> else img)"

text \<open>
  \<open>image.NewRGBA(r)\<close>: every pixel is the zero colour.  The rectangle is the one of a
  decoded image; the panic of \<open>NewRGBA\<close> on a rectangle too large for the memory is not
  part of the model.
\<close>

definition NewRGBA :: "Rectangle \<Rightarrow> image" where
  "NewRGBA r = \<lparr>Rect = r, Pix = (\<lambda>p. RGBA 0 0 0 0)\<rparr>"

text \<open>
  \<open>draw.Draw(dst, dst.Bounds(), &image.Uniform{c}, image.ZP, draw.Src)\<close>: every pixel of
  the rectangle becomes \<open>c\<close>.
\<close>

definition Draw_uniform :: "image \<Rightarrow> RGBA \<Rightarrow> image" where
  "Draw_uniform dst c = dst\<lparr>Pix := (\<lambda>p. c)\<rparr>"

text \<open>Two buffers are pixel-identical: same bounds, same colour at every coordinate.\<close>

definition pixel_identical :: "image \<Rightarrow> image \<Rightarrow> bool" where
  "pixel_identical a b \<longleftrightarrow> Rect a = Rect b \<and> (\<forall>x y. At a x y = At b x y)"

subsection \<open>float64\<close>

text \<open>
  The \<open>float64\<close> operations the program uses, as a parameter: the conversion
  \<open>float64(u)\<close> of a \<open>uint32\<close>, the zero value of \<open>var dif float64\<close>, \<open>+\<close>, \<open>-\<close>, \<open>*\<close>,
  \<open>math.Sqrt\<close> and \<open><\<close>.  Nothing is assumed about them unless a theorem says so.
\<close>

record 'f float64_ops =
  of_uint32 :: "uint32 \<Rightarrow> 'f"
  fzero :: "'f"
  fadd :: "'f \<Rightarrow> 'f \<Rightarrow> 'f"
  fsub :: "'f \<Rightarrow> 'f \<Rightarrow> 'f"
  fmul :: "'f \<Rightarrow> 'f \<Rightarrow> 'f"
  fsqrt :: "'f \<Rightarrow> 'f"
  flt :: "'f \<Rightarrow> 'f \<Rightarrow> bool"

text \<open>The same operations on the reals, without rounding.\<close>

definition real_ops :: "real float64_ops" where
  "real_ops = \<lparr>of_uint32 = (\<lambda>u. real (unat u)), fzero = 0, fadd = (+), fsub = (-),
     fmul = (*), fsqrt = sqrt, flt = (<)\<rparr>"

section \<open>calcdiff\<close>

definition calcdiff :: "'f float64_ops \<Rightarrow> image \<Rightarrow> image \<Rightarrow> int64 \<Rightarrow> int64 \<Rightarrow> 'f" where
  "calcdiff F a b x y =
     (case RGBA_values (At a x y) of (aR, aG, aB, aA) \<Rightarrow>
      case RGBA_values (At b x y) of (bR, bG, bB, bA) \<Rightarrow>
        let ra = of_uint32 F aR; rb = of_uint32 F bR;
            ga = of_uint32 F aG; gb = of_uint32 F bG;
            ba = of_uint32 F aB; bb = of_uint32 F bB;
            aa = of_uint32 F aA; ab = of_uint32 F bA;
            R = fmul F (fsub F rb ra) (fsub F rb ra);
            G = fmul F (fsub F gb ga) (fsub F gb ga);
            B = fmul F (fsub F bb ba) (fsub F bb ba);
            A = fmul F (fsub F ab aa) (fsub F ab aa)
        in fsqrt F (fadd F (fadd F (fadd F R G) B) A))"

section \<open>bdiff\<close>

text \<open>
  Every \<open>for ; dx != 0; dx-- { ... }\<close> loop of \<open>bdiff\<close> is one recursive function over the
  variables the loop changes; it returns the ones the code reads after the loop.  The
  counter is a 64-bit word, so the loop ends for every start value.
\<close>

text \<open>\<open>case y1 == y2\<close>: \<open>dif += calcdiff(a, b, x1, y1); x1++\<close>.\<close>

function bdiff_horizontal ::
  "'f float64_ops \<Rightarrow> image \<Rightarrow> image \<Rightarrow> int64 \<Rightarrow> int64 \<Rightarrow> int64 \<Rightarrow> 'f \<Rightarrow> int64 \<times> 'f" where
  "bdiff_horizontal F a b dx x1 y1 dif =
     (if dx \<noteq> 0
      then bdiff_horizontal F a b (dx - 1) (x1 + 1) y1 (fadd F dif (calcdiff F a b x1 y1))
      else (x1, dif))"
  by pat_completeness auto
termination
  by (relation "measure (\<lambda>(F, a, b, dx, x1, y1, dif). unat dx)") (simp_all add: unat_minus_one unat_gt_0)

declare bdiff_horizontal.simps [simp del]

text \<open>\<open>case x1 == x2\<close>: \<open>dif += calcdiff(a, b, x1, y1); y1++\<close>.\<close>

function bdiff_vertical ::
  "'f float64_ops \<Rightarrow> image \<Rightarrow> image \<Rightarrow> int64 \<Rightarrow> int64 \<Rightarrow> int64 \<Rightarrow> 'f \<Rightarrow> int64 \<times> 'f" where
  "bdiff_vertical F a b dy x1 y1 dif =
     (if dy \<noteq> 0
      then bdiff_vertical F a b (dy - 1) x1 (y1 + 1) (fadd F dif (calcdiff F a b x1 y1))
      else (y1, dif))"
  by pat_completeness auto
termination
  by (relation "measure (\<lambda>(F, a, b, dy, x1, y1, dif). unat dy)") (simp_all add: unat_minus_one unat_gt_0)

declare bdiff_vertical.simps [simp del]

text \<open>\<open>case dx == dy\<close>, \<open>y1 < y2\<close>: \<open>dif += calcdiff(a, b, x1, y1); x1++; y1++\<close>.\<close>

function bdiff_diagonal_inc ::
  "'f float64_ops \<Rightarrow> image \<Rightarrow> image \<Rightarrow> int64 \<Rightarrow> int64 \<Rightarrow> int64 \<Rightarrow> 'f \<Rightarrow> int64 \<times> int64 \<times> 'f" where
  "bdiff_diagonal_inc F a b dx x1 y1 dif =
     (if dx \<noteq> 0
      then bdiff_diagonal_inc F a b (dx - 1) (x1 + 1) (y1 + 1) (fadd F dif (calcdiff F a b x1 y1))
      else (x1, y1, dif))"
  by pat_completeness auto
termination
  by (relation "measure (\<lambda>(F, a, b, dx, x1, y1, dif). unat dx)") (simp_all add: unat_minus_one unat_gt_0)

declare bdiff_diagonal_inc.simps [simp del]

text \<open>\<open>case dx == dy\<close>, otherwise: \<open>dif += calcdiff(a, b, x1, y1); x1++; y1--\<close>.\<close>

function bdiff_diagonal_dec ::
  "'f float64_ops \<Rightarrow> image \<Rightarrow> image \<Rightarrow> int64 \<Rightarrow> int64 \<Rightarrow> int64 \<Rightarrow> 'f \<Rightarrow> int64 \<times> int64 \<times> 'f" where
  "bdiff_diagonal_dec F a b dx x1 y1 dif =
     (if dx \<noteq> 0
      then bdiff_diagonal_dec F a b (dx - 1) (x1 + 1) (y1 - 1) (fadd F dif (calcdiff F a b x1 y1))
      else (x1, y1, dif))"
  by pat_completeness auto
termination
  by (relation "measure (\<lambda>(F, a, b, dx, x1, y1, dif). unat dx)") (simp_all add: unat_minus_one unat_gt_0)

declare bdiff_diagonal_dec.simps [simp del]

text \<open>
  \<open>case dx > dy\<close>, \<open>y1 < y2\<close>: \<open>dif += calcdiff(a, b, x1, y1); x1++; e -= dy;
  if e < 0 { y1++; e += slope }\<close>.  The parameter \<open>dy\<close> is the doubled \<open>dy\<close> of the code.
\<close>

function bdiff_wide_inc ::
  "'f float64_ops \<Rightarrow> image \<Rightarrow> image \<Rightarrow> int64 \<Rightarrow> int64 \<Rightarrow> int64 \<Rightarrow> int64 \<Rightarrow> int64 \<Rightarrow> int64 \<Rightarrow> 'f \<Rightarrow> 'f" where
  "bdiff_wide_inc F a b dy slope dx x1 y1 e dif =
     (if dx \<noteq> 0
      then (if e - dy <s 0
            then bdiff_wide_inc F a b dy slope (dx - 1) (x1 + 1) (y1 + 1) (e - dy + slope)
                   (fadd F dif (calcdiff F a b x1 y1))
            else bdiff_wide_inc F a b dy slope (dx - 1) (x1 + 1) y1 (e - dy)
                   (fadd F dif (calcdiff F a b x1 y1)))
      else dif)"
  by pat_completeness auto
termination
  by (relation "measure (\<lambda>(F, a, b, dy, slope, dx, x1, y1, e, dif). unat dx)")
    (simp_all add: unat_minus_one unat_gt_0)

declare bdiff_wide_inc.simps [simp del]

text \<open>\<open>case dx > dy\<close>, otherwise: the same with \<open>y1--\<close>.\<close>

function bdiff_wide_dec ::
  "'f float64_ops \<Rightarrow> image \<Rightarrow> image \<Rightarrow> int64 \<Rightarrow> int64 \<Rightarrow> int64 \<Rightarrow> int64 \<Rightarrow> int64 \<Rightarrow> int64 \<Rightarrow> 'f \<Rightarrow> 'f" where
  "bdiff_wide_dec F a b dy slope dx x1 y1 e dif =
     (if dx \<noteq> 0
      then (if e - dy <s 0
            then bdiff_wide_dec F a b dy slope (dx - 1) (x1 + 1) (y1 - 1) (e - dy + slope)
                   (fadd F dif (calcdiff F a b x1 y1))
            else bdiff_wide_dec F a b dy slope (dx - 1) (x1 + 1) y1 (e - dy)
                   (fadd F dif (calcdiff F a b x1 y1)))
      else dif)"
  by pat_completeness auto
termination
  by (relation "measure (\<lambda>(F, a, b, dy, slope, dx, x1, y1, e, dif). unat dx)")
    (simp_all add: unat_minus_one unat_gt_0)

declare bdiff_wide_dec.simps [simp del]

text \<open>
  \<open>default\<close>, \<open>y1 < y2\<close>: \<open>dif += calcdiff(a, b, x1, y1); y1++; e -= dx;
  if e < 0 { x1++; e += slope }\<close>.  The parameter \<open>dx\<close> is the doubled \<open>dx\<close> of the code.
\<close>

function bdiff_tall_inc ::
  "'f float64_ops \<Rightarrow> image \<Rightarrow> image \<Rightarrow> int64 \<Rightarrow> int64 \<Rightarrow> int64 \<Rightarrow> int64 \<Rightarrow> int64 \<Rightarrow> int64 \<Rightarrow> 'f \<Rightarrow> 'f" where
  "bdiff_tall_inc F a b dx slope dy x1 y1 e dif =
     (if dy \<noteq> 0
      then (if e - dx <s 0
            then bdiff_tall_inc F a b dx slope (dy - 1) (x1 + 1) (y1 + 1) (e - dx + slope)
                   (fadd F dif (calcdiff F a b x1 y1))
            else bdiff_tall_inc F a b dx slope (dy - 1) x1 (y1 + 1) (e - dx)
                   (fadd F dif (calcdiff F a b x1 y1)))
      else dif)"
  by pat_completeness auto
termination
  by (relation "measure (\<lambda>(F, a, b, dx, slope, dy, x1, y1, e, dif). unat dy)")
    (simp_all add: unat_minus_one unat_gt_0)

declare bdiff_tall_inc.simps [simp del]

text \<open>\<open>default\<close>, otherwise: the same with \<open>y1--\<close>.\<close>

function bdiff_tall_dec ::
  "'f float64_ops \<Rightarrow> image \<Rightarrow> image \<Rightarrow> int64 \<Rightarrow> int64 \<Rightarrow> int64 \<Rightarrow> int64 \<Rightarrow> int64 \<Rightarrow> int64 \<Rightarrow> 'f \<Rightarrow> 'f" where
  "bdiff_tall_dec F a b dx slope dy x1 y1 e dif =
     (if dy \<noteq> 0
      then (if e - dx <s 0
            then bdiff_tall_dec F a b dx slope (dy - 1) (x1 + 1) (y1 - 1) (e - dx + slope)
                   (fadd F dif (calcdiff F a b x1 y1))
            else bdiff_tall_dec F a b dx slope (dy - 1) x1 (y1 - 1) (e - dx)
                   (fadd F dif (calcdiff F a b x1 y1)))
      else dif)"
  by pat_completeness auto
termination
  by (relation "measure (\<lambda>(F, a, b, dx, slope, dy, x1, y1, e, dif). unat dy)")
    (simp_all add: unat_minus_one unat_gt_0)

declare bdiff_tall_dec.simps [simp del]

text \<open>
  The first two statements of \<open>bdiff\<close> and of \<open>bcopy\<close>:
  \<open>if x1 > x2 { x1, y1, x2, y2 = x2, y2, x1, y1 }\<close>.
\<close>

definition order_x :: "int64 \<Rightarrow> int64 \<Rightarrow> int64 \<Rightarrow> int64 \<Rightarrow> int64 \<times> int64 \<times> int64 \<times> int64" where
  "order_x x1 y1 x2 y2 = (if x2 <s x1 then (x2, y2, x1, y1) else (x1, y1, x2, y2))"

text \<open>\<open>if dy < 0 { dy = -dy }\<close>.\<close>

definition abs_dy :: "int64 \<Rightarrow> int64" where
  "abs_dy dy = (if dy <s 0 then - dy else dy)"

definition bdiff ::
  "'f float64_ops \<Rightarrow> image \<Rightarrow> image \<Rightarrow> int64 \<Rightarrow> int64 \<Rightarrow> int64 \<Rightarrow> int64 \<Rightarrow> 'f" where
  "bdiff F a b x1 y1 x2 y2 =
     (case order_x x1 y1 x2 y2 of (x1, y1, x2, y2) \<Rightarrow>
      let dx = x2 - x1; dy = abs_dy (y2 - y1); dif = fzero F in
      if x1 = x2 \<and> y1 = y2 then fadd F dif (calcdiff F a b x1 y1)
      else if y1 = y2 then
        (case bdiff_horizontal F a b dx x1 y1 dif of (x1, dif) \<Rightarrow>
           fadd F dif (calcdiff F a b x1 y1))
      else if x1 = x2 then
        (let y1 = (if y2 <s y1 then y2 else y1) in
         case bdiff_vertical F a b dy x1 y1 dif of (y1, dif) \<Rightarrow>
           fadd F dif (calcdiff F a b x1 y1))
      else if dx = dy then
        (case (if y1 <s y2 then bdiff_diagonal_inc F a b dx x1 y1 dif
               else bdiff_diagonal_dec F a b dx x1 y1 dif) of (x1, y1, dif) \<Rightarrow>
           fadd F dif (calcdiff F a b x1 y1))
      else if dy <s dx then
        (let dif = (if y1 <s y2 then bdiff_wide_inc F a b (2 * dy) (2 * dx) dx x1 y1 dx dif
                    else bdiff_wide_dec F a b (2 * dy) (2 * dx) dx x1 y1 dx dif)
         in fadd F dif (calcdiff F a b x2 y2))
      else
        (let dif = (if y1 <s y2 then bdiff_tall_inc F a b (2 * dx) (2 * dy) dy x1 y1 dy dif
                    else bdiff_tall_dec F a b (2 * dx) (2 * dy) dy x1 y1 dy dif)
         in fadd F dif (calcdiff F a b x2 y2)))"

section \<open>bcopy\<close>

text \<open>
  \<open>bcopy(img, src, ...)\<close> writes into \<open>img\<close> and only reads \<open>src\<close>; the model threads
  \<open>img\<close> through and returns it.  At both call sites the two are different buffers.
\<close>

text \<open>\<open>case y1 == y2\<close>: \<open>img.Set(x1, y1, src.At(x1, y1)); x1++\<close>.\<close>

function bcopy_horizontal ::
  "image \<Rightarrow> image \<Rightarrow> int64 \<Rightarrow> int64 \<Rightarrow> int64 \<Rightarrow> int64 \<times> image" where
  "bcopy_horizontal img src dx x1 y1 =
     (if dx \<noteq> 0
      then bcopy_horizontal (Set_px img x1 y1 (At src x1 y1)) src (dx - 1) (x1 + 1) y1
      else (x1, img))"
  by pat_completeness auto
termination
  by (relation "measure (\<lambda>(img, src, dx, x1, y1). unat dx)") (simp_all add: unat_minus_one unat_gt_0)

declare bcopy_horizontal.simps [simp del]

text \<open>\<open>case x1 == x2\<close>: \<open>img.Set(x1, y1, src.At(x1, y1)); y1++\<close>.\<close>

function bcopy_vertical ::
  "image \<Rightarrow> image \<Rightarrow> int64 \<Rightarrow> int64 \<Rightarrow> int64 \<Rightarrow> int64 \<times> image" where
  "bcopy_vertical img src dy x1 y1 =
     (if dy \<noteq> 0
      then bcopy_vertical (Set_px img x1 y1 (At src x1 y1)) src (dy - 1) x1 (y1 + 1)
      else (y1, img))"
  by pat_completeness auto
termination
  by (relation "measure (\<lambda>(img, src, dy, x1, y1). unat dy)") (simp_all add: unat_minus_one unat_gt_0)

declare bcopy_vertical.simps [simp del]

text \<open>\<open>case dx == dy\<close>, \<open>y1 < y2\<close>: \<open>img.Set(x1, y1, src.At(x1, y1)); x1++; y1++\<close>.\<close>

function bcopy_diagonal_inc ::
  "image \<Rightarrow> image \<Rightarrow> int64 \<Rightarrow> int64 \<Rightarrow> int64 \<Rightarrow> int64 \<times> int64 \<times> image" where
  "bcopy_diagonal_inc img src dx x1 y1 =
     (if dx \<noteq> 0
      then bcopy_diagonal_inc (Set_px img x1 y1 (At src x1 y1)) src (dx - 1) (x1 + 1) (y1 + 1)
      else (x1, y1, img))"
  by pat_completeness auto
termination
  by (relation "measure (\<lambda>(img, src, dx, x1, y1). unat dx)") (simp_all add: unat_minus_one unat_gt_0)

declare bcopy_diagonal_inc.simps [simp del]

text \<open>\<open>case dx == dy\<close>, otherwise: \<open>img.Set(x1, y1, src.At(x1, y1)); x1++; y1--\<close>.\<close>

function bcopy_diagonal_dec ::
  "image \<Rightarrow> image \<Rightarrow> int64 \<Rightarrow> int64 \<Rightarrow> int64 \<Rightarrow> int64 \<times> int64 \<times> image" where
  "bcopy_diagonal_dec img src dx x1 y1 =
     (if dx \<noteq> 0
      then bcopy_diagonal_dec (Set_px img x1 y1 (At src x1 y1)) src (dx - 1) (x1 + 1) (y1 - 1)
      else (x1, y1, img))"
  by pat_completeness auto
termination
  by (relation "measure (\<lambda>(img, src, dx, x1, y1). unat dx)") (simp_all add: unat_minus_one unat_gt_0)

declare bcopy_diagonal_dec.simps [simp del]

text \<open>
  \<open>case dx > dy\<close>, \<open>y1 < y2\<close>: \<open>img.Set(x1, y1, src.At(x1, y1)); x1++; e -= dy;
  if e < 0 { y1++; e += slope }\<close>.  The parameter \<open>dy\<close> is the doubled \<open>dy\<close> of the code.
\<close>

function bcopy_wide_inc ::
  "image \<Rightarrow> image \<Rightarrow> int64 \<Rightarrow> int64 \<Rightarrow> int64 \<Rightarrow> int64 \<Rightarrow> int64 \<Rightarrow> int64 \<Rightarrow> image" where
  "bcopy_wide_inc img src dy slope dx x1 y1 e =
     (if dx \<noteq> 0
      then (if e - dy <s 0
            then bcopy_wide_inc (Set_px img x1 y1 (At src x1 y1)) src
                   dy slope (dx - 1) (x1 + 1) (y1 + 1) (e - dy + slope)
            else bcopy_wide_inc (Set_px img x1 y1 (At src x1 y1)) src
                   dy slope (dx - 1) (x1 + 1) y1 (e - dy))
      else img)"
  by pat_completeness auto
termination
  by (relation "measure (\<lambda>(img, src, dy, slope, dx, x1, y1, e). unat dx)")
    (simp_all add: unat_minus_one unat_gt_0)

declare bcopy_wide_inc.simps [simp del]

text \<open>\<open>case dx > dy\<close>, otherwise: the same with \<open>y1--\<close>.\<close>

function bcopy_wide_dec ::
  "image \<Rightarrow> image \<Rightarrow> int64 \<Rightarrow> int64 \<Rightarrow> int64 \<Rightarrow> int64 \<Rightarrow> int64 \<Rightarrow> int64 \<Rightarrow> image" where
  "bcopy_wide_dec img src dy slope dx x1 y1 e =
     (if dx \<noteq> 0
      then (if e - dy <s 0
            then bcopy_wide_dec (Set_px img x1 y1 (At src x1 y1)) src
                   dy slope (dx - 1) (x1 + 1) (y1 - 1) (e - dy + slope)
            else bcopy_wide_dec (Set_px img x1 y1 (At src x1 y1)) src
                   dy slope (dx - 1) (x1 + 1) y1 (e - dy))
      else img)"
  by pat_completeness auto
termination
  by (relation "measure (\<lambda>(img, src, dy, slope, dx, x1, y1, e). unat dx)")
    (simp_all add: unat_minus_one unat_gt_0)

declare bcopy_wide_dec.simps [simp del]

text \<open>
  \<open>default\<close>, \<open>y1 < y2\<close>: \<open>img.Set(x1, y1, src.At(x1, y1)); y1++; e -= dx;
  if e < 0 { x1++; e += slope }\<close>.  The parameter \<open>dx\<close> is the doubled \<open>dx\<close> of the code.
\<close>

function bcopy_tall_inc ::
  "image \<Rightarrow> image \<Rightarrow> int64 \<Rightarrow> int64 \<Rightarrow> int64 \<Rightarrow> int64 \<Rightarrow> int64 \<Rightarrow> int64 \<Rightarrow> image" where
  "bcopy_tall_inc img src dx slope dy x1 y1 e =
     (if dy \<noteq> 0
      then (if e - dx <s 0
            then bcopy_tall_inc (Set_px img x1 y1 (At src x1 y1)) src
                   dx slope (dy - 1) (x1 + 1) (y1 + 1) (e - dx + slope)
            else bcopy_tall_inc (Set_px img x1 y1 (At src x1 y1)) src
                   dx slope (dy - 1) x1 (y1 + 1) (e - dx))
      else img)"
  by pat_completeness auto
termination
  by (relation "measure (\<lambda>(img, src, dx, slope, dy, x1, y1, e). unat dy)")
    (simp_all add: unat_minus_one unat_gt_0)

declare bcopy_tall_inc.simps [simp del]

text \<open>\<open>default\<close>, otherwise: the same with \<open>y1--\<close>.\<close>

function bcopy_tall_dec ::
  "image \<Rightarrow> image \<Rightarrow> int64 \<Rightarrow> int64 \<Rightarrow> int64 \<Rightarrow> int64 \<Rightarrow> int64 \<Rightarrow> int64 \<Rightarrow> image" where
  "bcopy_tall_dec img src dx slope dy x1 y1 e =
     (if dy \<noteq> 0
      then (if e - dx <s 0
            then bcopy_tall_dec (Set_px img x1 y1 (At src x1 y1)) src
                   dx slope (dy - 1) (x1 + 1) (y1 - 1) (e - dx + slope)
            else bcopy_tall_dec (Set_px img x1 y1 (At src x1 y1)) src
                   dx slope (dy - 1) x1 (y1 - 1) (e - dx))
      else img)"
  by pat_completeness auto
termination
  by (relation "measure (\<lambda>(img, src, dx, slope, dy, x1, y1, e). unat dy)")
    (simp_all add: unat_minus_one unat_gt_0)

declare bcopy_tall_dec.simps [simp del]


definition bcopy :: "image \<Rightarrow> image \<Rightarrow> int64 \<Rightarrow> int64 \<Rightarrow> int64 \<Rightarrow> int64 \<Rightarrow> image" where
  "bcopy img src x1 y1 x2 y2 =
     (case order_x x1 y1 x2 y2 of (x1, y1, x2, y2) \<Rightarrow>
      let dx = x2 - x1; dy = abs_dy (y2 - y1) in
      if x1 = x2 \<and> y1 = y2 then Set_px img x1 y1 (At src x1 y1)
      else if y1 = y2 then
        (case bcopy_horizontal img src dx x1 y1 of (x1, img) \<Rightarrow>
           Set_px img x1 y1 (At src x1 y1))
      else if x1 = x2 then
        (let y1 = (if y2 <s y1 then y2 else y1) in
         case bcopy_vertical img src dy x1 y1 of (y1, img) \<Rightarrow>
           Set_px img x1 y1 (At src x1 y1))
      else if dx = dy then
        (case (if y1 <s y2 then bcopy_diagonal_inc img src dx x1 y1
               else bcopy_diagonal_dec img src dx x1 y1) of (x1, y1, img) \<Rightarrow>
           Set_px img x1 y1 (At src x1 y1))
      else if dy <s dx then
        (let img = (if y1 <s y2 then bcopy_wide_inc img src (2 * dy) (2 * dx) dx x1 y1 dx
                    else bcopy_wide_dec img src (2 * dy) (2 * dx) dx x1 y1 dx)
         in Set_px img x2 y2 (At src x2 y2))
      else
        (let img = (if y1 <s y2 then bcopy_tall_inc img src (2 * dx) (2 * dy) dy x1 y1 dy
                    else bcopy_tall_dec img src (2 * dx) (2 * dy) dy x1 y1 dy)
         in Set_px img x2 y2 (At src x2 y2)))"

section \<open>The coordinate path of a segment\<close>

text \<open>
  The Coordinate Path of the specification: the coordinates a segment covers, in the order
  of the line tracing (one point; horizontal; vertical; diagonal; error-accumulator
  stepping along the longer axis, the explicit end point appended), after the end points
  are put in order of \<open>x\<close>.  It is a list of coordinates only: no image is involved.
\<close>

function path_horizontal ::
  "int64 \<Rightarrow> int64 \<Rightarrow> int64 \<Rightarrow> (int64 \<times> int64) list" where
  "path_horizontal dx x1 y1 =
     (if dx \<noteq> 0
      then (x1, y1) # path_horizontal (dx - 1) (x1 + 1) y1
      else [])"
  by pat_completeness auto
termination
  by (relation "measure (\<lambda>(dx, x1, y1). unat dx)") (simp_all add: unat_minus_one unat_gt_0)

declare path_horizontal.simps [simp del]

function path_vertical ::
  "int64 \<Rightarrow> int64 \<Rightarrow> int64 \<Rightarrow> (int64 \<times> int64) list" where
  "path_vertical dy x1 y1 =
     (if dy \<noteq> 0
      then (x1, y1) # path_vertical (dy - 1) x1 (y1 + 1)
      else [])"
  by pat_completeness auto
termination
  by (relation "measure (\<lambda>(dy, x1, y1). unat dy)") (simp_all add: unat_minus_one unat_gt_0)

declare path_vertical.simps [simp del]

function path_diagonal_inc ::
  "int64 \<Rightarrow> int64 \<Rightarrow> int64 \<Rightarrow> (int64 \<times> int64) list" where
  "path_diagonal_inc dx x1 y1 =
     (if dx \<noteq> 0
      then (x1, y1) # path_diagonal_inc (dx - 1) (x1 + 1) (y1 + 1)
      else [])"
  by pat_completeness auto
termination
  by (relation "measure (\<lambda>(dx, x1, y1). unat dx)") (simp_all add: unat_minus_one unat_gt_0)

declare path_diagonal_inc.simps [simp del]

function path_diagonal_dec ::
  "int64 \<Rightarrow> int64 \<Rightarrow> int64 \<Rightarrow> (int64 \<times> int64) list" where
  "path_diagonal_dec dx x1 y1 =
     (if dx \<noteq> 0
      then (x1, y1) # path_diagonal_dec (dx - 1) (x1 + 1) (y1 - 1)
      else [])"
  by pat_completeness auto
termination
  by (relation "measure (\<lambda>(dx, x1, y1). unat dx)") (simp_all add: unat_minus_one unat_gt_0)

declare path_diagonal_dec.simps [simp del]

function path_wide_inc ::
  "int64 \<Rightarrow> int64 \<Rightarrow> int64 \<Rightarrow> int64 \<Rightarrow> int64 \<Rightarrow> int64 \<Rightarrow> (int64 \<times> int64) list" where
  "path_wide_inc dy slope dx x1 y1 e =
     (if dx \<noteq> 0
      then (if e - dy <s 0
            then (x1, y1) # path_wide_inc dy slope (dx - 1) (x1 + 1) (y1 + 1) (e - dy + slope)
            else (x1, y1) # path_wide_inc dy slope (dx - 1) (x1 + 1) y1 (e - dy))
      else [])"
  by pat_completeness auto
termination
  by (relation "measure (\<lambda>(dy, slope, dx, x1, y1, e). unat dx)")
    (simp_all add: unat_minus_one unat_gt_0)

declare path_wide_inc.simps [simp del]

function path_wide_dec ::
  "int64 \<Rightarrow> int64 \<Rightarrow> int64 \<Rightarrow> int64 \<Rightarrow> int64 \<Rightarrow> int64 \<Rightarrow> (int64 \<times> int64) list" where
  "path_wide_dec dy slope dx x1 y1 e =
     (if dx \<noteq> 0
      then (if e - dy <s 0
            then (x1, y1) # path_wide_dec dy slope (dx - 1) (x1 + 1) (y1 - 1) (e - dy + slope)
            else (x1, y1) # path_wide_dec dy slope (dx - 1) (x1 + 1) y1 (e - dy))
      else [])"
  by pat_completeness auto
termination
  by (relation "measure (\<lambda>(dy, slope, dx, x1, y1, e). unat dx)")
    (simp_all add: unat_minus_one unat_gt_0)

declare path_wide_dec.simps [simp del]

function path_tall_inc ::
  "int64 \<Rightarrow> int64 \<Rightarrow> int64 \<Rightarrow> int64 \<Rightarrow> int64 \<Rightarrow> int64 \<Rightarrow> (int64 \<times> int64) list" where
  "path_tall_inc dx slope dy x1 y1 e =
     (if dy \<noteq> 0
      then (if e - dx <s 0
            then (x1, y1) # path_tall_inc dx slope (dy - 1) (x1 + 1) (y1 + 1) (e - dx + slope)
            else (x1, y1) # path_tall_inc dx slope (dy - 1) x1 (y1 + 1) (e - dx))
      else [])"
  by pat_completeness auto
termination
  by (relation "measure (\<lambda>(dx, slope, dy, x1, y1, e). unat dy)")
    (simp_all add: unat_minus_one unat_gt_0)

declare path_tall_inc.simps [simp del]

function path_tall_dec ::
  "int64 \<Rightarrow> int64 \<Rightarrow> int64 \<Rightarrow> int64 \<Rightarrow> int64 \<Rightarrow> int64 \<Rightarrow> (int64 \<times> int64) list" where
  "path_tall_dec dx slope dy x1 y1 e =
     (if dy \<noteq> 0
      then (if e - dx <s 0
            then (x1, y1) # path_tall_dec dx slope (dy - 1) (x1 + 1) (y1 - 1) (e - dx + slope)
            else (x1, y1) # path_tall_dec dx slope (dy - 1) x1 (y1 - 1) (e - dx))
      else [])"
  by pat_completeness auto
termination
  by (relation "measure (\<lambda>(dx, slope, dy, x1, y1, e). unat dy)")
    (simp_all add: unat_minus_one unat_gt_0)

declare path_tall_dec.simps [simp del]


definition coordinate_path :: "int64 \<Rightarrow> int64 \<Rightarrow> int64 \<Rightarrow> int64 \<Rightarrow> (int64 \<times> int64) list" where
  "coordinate_path x1 y1 x2 y2 =
     (case order_x x1 y1 x2 y2 of (x1, y1, x2, y2) \<Rightarrow>
      let dx = x2 - x1; dy = abs_dy (y2 - y1) in
      if x1 = x2 \<and> y1 = y2 then [(x1, y1)]
      else if y1 = y2 then path_horizontal dx x1 y1 @ [(x1 + dx, y1)]
      else if x1 = x2 then
        (let y1 = (if y2 <s y1 then y2 else y1) in path_vertical dy x1 y1 @ [(x1, y1 + dy)])
      else if dx = dy then
        (if y1 <s y2 then path_diagonal_inc dx x1 y1 @ [(x1 + dx, y1 + dx)]
         else path_diagonal_dec dx x1 y1 @ [(x1 + dx, y1 - dx)])
      else if dy <s dx then
        (if y1 <s y2 then path_wide_inc (2 * dy) (2 * dx) dx x1 y1 dx
         else path_wide_dec (2 * dy) (2 * dx) dx x1 y1 dx) @ [(x2, y2)]
      else
        (if y1 <s y2 then path_tall_inc (2 * dx) (2 * dy) dy x1 y1 dy
         else path_tall_dec (2 * dx) (2 * dy) dy x1 y1 dy) @ [(x2, y2)])"

text \<open>One step of the score: \<open>dif += calcdiff(a, b, x, y)\<close>.\<close>

definition score_step :: "'f float64_ops \<Rightarrow> image \<Rightarrow> image \<Rightarrow> 'f \<Rightarrow> int64 \<times> int64 \<Rightarrow> 'f" where
  "score_step F a b dif p = fadd F dif (calcdiff F a b (fst p) (snd p))"

text \<open>The difference score summed along a list of coordinates, starting from zero.\<close>

definition score_along ::
  "'f float64_ops \<Rightarrow> image \<Rightarrow> image \<Rightarrow> (int64 \<times> int64) list \<Rightarrow> 'f" where
  "score_along F a b ps = foldl (score_step F a b) (fzero F) ps"

text \<open>One step of a copy: \<open>img.Set(x, y, src.At(x, y))\<close>.\<close>

definition copy_step :: "image \<Rightarrow> image \<Rightarrow> int64 \<times> int64 \<Rightarrow> image" where
  "copy_step src img p = Set_px img (fst p) (snd p) (At src (fst p) (snd p))"

text \<open>The specification's \<open>commit(path, from, to)\<close>: copy pixel by pixel along a list.\<close>

definition commit_along :: "image \<Rightarrow> image \<Rightarrow> (int64 \<times> int64) list \<Rightarrow> image" where
  "commit_along to from ps = foldl (copy_step from) to ps"

section \<open>sketch\<close>

subsection \<open>What the program takes from outside\<close>

text \<open>
  Modelled from the spec: \<open>bresenham.Bresenham(img1, x1, y1, x2, y2, clr)\<close> belongs to the
  library \<open>github.com/StephaneBunel/bresenham\<close>, which is not part of the repository.
  The specification gives it as the Segment Rasterizer, which turns two end points into a
  coordinate path, followed by \<open>draw_segment_into_trial(path, color)\<close>, which sets every
  pixel on the path to the colour.  The rasterizer is the parameter \<open>rast\<close>.
\<close>

type_synonym rasterizer = "int64 \<Rightarrow> int64 \<Rightarrow> int64 \<Rightarrow> int64 \<Rightarrow> (int64 \<times> int64) list"

definition draw_step :: "RGBA \<Rightarrow> image \<Rightarrow> int64 \<times> int64 \<Rightarrow> image" where
  "draw_step clr img p = Set_px img (fst p) (snd p) clr"

definition Bresenham ::
  "rasterizer \<Rightarrow> image \<Rightarrow> int64 \<Rightarrow> int64 \<Rightarrow> int64 \<Rightarrow> int64 \<Rightarrow> RGBA \<Rightarrow> image" where
  "Bresenham rast img x1 y1 x2 y2 clr = foldl (draw_step clr) img (rast x1 y1 x2 y2)"

text \<open>
  The rasterizer draws nowhere but on the path that \<open>bdiff\<close> and \<open>bcopy\<close> traverse.
\<close>

definition rast_covered :: "rasterizer \<Rightarrow> bool" where
  "rast_covered rast \<longleftrightarrow>
     (\<forall>x1 y1 x2 y2. set (rast x1 y1 x2 y2) \<subseteq> set (coordinate_path x1 y1 x2 y2))"

text \<open>
  A panic of the Go runtime or of \<open>math/rand\<close>: \<open>rand.Intn(n)\<close> panics with
  "invalid argument to Intn" when \<open>n <= 0\<close>; an index outside a slice panics.
\<close>

datatype panic = Intn_invalid_argument | Index_out_of_range

text \<open>
  \<open>rand.Intn(n)\<close>: some value in \<open>[0, n)\<close>.  The random source is a sequence of natural
  numbers, one for each call; the call reduces its number modulo \<open>n\<close>, so every value of
  the range can come out.  The argument and the result are the values of Go \<open>int\<close>s.
\<close>

definition Intn :: "int \<Rightarrow> nat \<Rightarrow> panic + int" where
  "Intn n r = (if n \<le> 0 then Inl Intn_invalid_argument else Inr (int r mod n))"

text \<open>Go's \<open>/\<close> on \<open>int\<close> truncates towards zero.\<close>

definition go_div :: "int64 \<Rightarrow> int64 \<Rightarrow> int64" where
  "go_div a b = word_of_int (sint a sdiv sint b)"

text \<open>The flags \<open>-iter\<close>, \<open>-l\<close> and \<open>-p\<close>.\<close>

record config =
  iterLimit :: int64
  lineLen :: int64
  palletize :: bool

text \<open>A file written by \<open>save\<close>: \<open>incr_NNN.png\<close> or \<open>frame_NNN.png\<close>, and its image.\<close>

datatype snapshot = Incr_file int64 image | Frame_file int64 image

text \<open>
  The variables of the loop of \<open>sketch\<close>.  \<open>img1\<close> is the trial buffer and \<open>img2\<close> the best
  buffer.  \<open>rand\<close> is what is left of the random source.  \<open>clock\<close> is what is left of the
  answers of the wall clock, one pair for each \<open>time.Now()\<close>: has the save interval
  elapsed (and is it positive), has the statistics interval elapsed.  \<open>written\<close> lists the
  files written so far; creating a file is taken to succeed.
\<close>

record sketch_state =
  iter :: int64
  img1 :: image
  img2 :: image
  stati :: int64
  statc :: int64
  incrSaveNum :: int64
  rand :: "nat \<Rightarrow> nat"
  clock :: "nat \<Rightarrow> bool \<times> bool"
  written :: "snapshot list"

subsection \<open>The copy of the source image\<close>

text \<open>
  \<open>for y := 0; y < h; y++ { for x := 0; x < w; x++ { img.Set(x, y, convert(src.At(x, y))) } }\<close>.
  The source image is taken with its colours already converted by \<open>color.RGBAModel\<close>.
\<close>

function copy_row :: "image \<Rightarrow> int64 \<Rightarrow> int64 \<Rightarrow> int64 \<Rightarrow> image \<Rightarrow> image" where
  "copy_row src w y x img =
     (if x <s w then copy_row src w y (x + 1) (Set_px img x y (At src x y)) else img)"
  by pat_completeness auto
termination
  apply (relation "measure (\<lambda>(src, w, y, x, img). nat (sint w - sint x))")
   apply simp
  apply (simp add: word_sless_alt sint_word_ariths)
  subgoal for w x
    using sint_ge[of x] sint_lt[of w] signed_take_bit_int_eq_self[of 63 "sint x + 1"]
    by simp
  done

declare copy_row.simps [simp del]

function copy_rows :: "image \<Rightarrow> int64 \<Rightarrow> int64 \<Rightarrow> int64 \<Rightarrow> image \<Rightarrow> image" where
  "copy_rows src w h y img =
     (if y <s h then copy_rows src w h (y + 1) (copy_row src w y 0 img) else img)"
  by pat_completeness auto
termination
  apply (relation "measure (\<lambda>(src, w, h, y, img). nat (sint h - sint y))")
   apply simp
  apply (simp add: word_sless_alt sint_word_ariths)
  subgoal for h y
    using sint_ge[of y] sint_lt[of h] signed_take_bit_int_eq_self[of 63 "sint y + 1"]
    by simp
  done

declare copy_rows.simps [simp del]

subsection \<open>The palette\<close>

text \<open>
  The body of the palette loop: with \<open>-p\<close> the colour is appended only when the map
  \<open>palettemap\<close> has no entry for it, and then entered into the map; without \<open>-p\<close> it is
  always appended.
\<close>

definition palette_add ::
  "bool \<Rightarrow> RGBA \<Rightarrow> RGBA list \<times> (RGBA \<rightharpoonup> bool) \<Rightarrow> RGBA list \<times> (RGBA \<rightharpoonup> bool)" where
  "palette_add p c st =
     (case st of (palette, palettemap) \<Rightarrow>
        if p then
          (if palettemap c = None then (palette @ [c], palettemap(c \<mapsto> True))
           else (palette, palettemap))
        else (palette @ [c], palettemap))"

function palette_row ::
  "bool \<Rightarrow> image \<Rightarrow> int64 \<Rightarrow> int64 \<Rightarrow> int64 \<Rightarrow> RGBA list \<times> (RGBA \<rightharpoonup> bool) \<Rightarrow>
     RGBA list \<times> (RGBA \<rightharpoonup> bool)" where
  "palette_row p img w y x st =
     (if x <s w then palette_row p img w y (x + 1) (palette_add p (At img x y) st) else st)"
  by pat_completeness auto
termination
  apply (relation "measure (\<lambda>(p, img, w, y, x, st). nat (sint w - sint x))")
   apply simp
  apply (simp add: word_sless_alt sint_word_ariths)
  subgoal for w x
    using sint_ge[of x] sint_lt[of w] signed_take_bit_int_eq_self[of 63 "sint x + 1"]
    by simp
  done

declare palette_row.simps [simp del]

function palette_rows ::
  "bool \<Rightarrow> image \<Rightarrow> int64 \<Rightarrow> int64 \<Rightarrow> int64 \<Rightarrow> RGBA list \<times> (RGBA \<rightharpoonup> bool) \<Rightarrow>
     RGBA list \<times> (RGBA \<rightharpoonup> bool)" where
  "palette_rows p img w h y st =
     (if y <s h then palette_rows p img w h (y + 1) (palette_row p img w y 0 st) else st)"
  by pat_completeness auto
termination
  apply (relation "measure (\<lambda>(p, img, w, h, y, st). nat (sint h - sint y))")
   apply simp
  apply (simp add: word_sless_alt sint_word_ariths)
  subgoal for h y
    using sint_ge[of y] sint_lt[of h] signed_take_bit_int_eq_self[of 63 "sint y + 1"]
    by simp
  done

declare palette_rows.simps [simp del]

definition build_palette :: "bool \<Rightarrow> image \<Rightarrow> int64 \<Rightarrow> int64 \<Rightarrow> RGBA list" where
  "build_palette p img w h = fst (palette_rows p img w h 0 ([], Map.empty))"

subsection \<open>One iteration\<close>

text \<open>
  The candidate: the five calls of \<open>rand.Intn\<close> in the order of the code, and the colour
  \<open>palette[...]\<close>.  The second end point is not clamped.
\<close>

definition candidate ::
  "config \<Rightarrow> RGBA list \<Rightarrow> int64 \<Rightarrow> int64 \<Rightarrow> (nat \<Rightarrow> nat) \<Rightarrow>
     panic + (int64 \<times> int64 \<times> int64 \<times> int64 \<times> RGBA)" where
  "candidate cfg palette w h rnd =
     (case Intn (sint w) (rnd 0) of Inl e \<Rightarrow> Inl e | Inr a \<Rightarrow>
     (case Intn (sint h) (rnd 1) of Inl e \<Rightarrow> Inl e | Inr b \<Rightarrow>
     (case Intn (sint (lineLen cfg)) (rnd 2) of Inl e \<Rightarrow> Inl e | Inr c \<Rightarrow>
     (case Intn (sint (lineLen cfg)) (rnd 3) of Inl e \<Rightarrow> Inl e | Inr d \<Rightarrow>
     (case Intn (int (length palette)) (rnd 4) of Inl e \<Rightarrow> Inl e | Inr k \<Rightarrow>
        (let x1 = word_of_int a;
             y1 = word_of_int b;
             x2 = go_div (- lineLen cfg) 2 + x1 + word_of_int c;
             y2 = go_div (- lineLen cfg) 2 + y1 + word_of_int d
         in if nat k < length palette then Inr (x1, y1, x2, y2, palette ! nat k)
            else Inl Index_out_of_range))))))"

text \<open>
  The draw and the decision:
  \<open>if bdiff(img, img1, ...) < bdiff(img, img2, ...) { bcopy(img2, img1, ...); statc++ }
  else { bcopy(img1, img2, ...) }\<close>.
\<close>

definition resolve ::
  "'f float64_ops \<Rightarrow> rasterizer \<Rightarrow> image \<Rightarrow> int64 \<Rightarrow> int64 \<Rightarrow> int64 \<Rightarrow> int64 \<Rightarrow> RGBA \<Rightarrow>
     sketch_state \<Rightarrow> sketch_state" where
  "resolve F rast img x1 y1 x2 y2 clr s =
     (let trial = Bresenham rast (img1 s) x1 y1 x2 y2 clr in
      if flt F (bdiff F img trial x1 y1 x2 y2) (bdiff F img (img2 s) x1 y1 x2 y2)
      then s\<lparr>img1 := trial, img2 := bcopy (img2 s) trial x1 y1 x2 y2, statc := statc s + 1\<rparr>
      else s\<lparr>img1 := bcopy trial (img2 s) x1 y1 x2 y2\<rparr>)"

text \<open>
  \<open>if i%50 == 0 { now := time.Now(); ... }\<close>: an incremental snapshot of \<open>img2\<close> when the
  save interval has elapsed, and the counters reset when the statistics interval has.
  The line that \<open>log.Printf\<close> prints is left out.
\<close>

definition poll :: "sketch_state \<Rightarrow> sketch_state" where
  "poll s =
     (if sint (iter s) smod 50 = 0 then
        (case clock s 0 of (save_due, stat_due) \<Rightarrow>
           let s = s\<lparr>clock := (\<lambda>n. clock s (Suc n))\<rparr>;
               s = (if save_due
                    then s\<lparr>written := written s @ [Incr_file (incrSaveNum s) (img2 s)],
                           incrSaveNum := incrSaveNum s + 1\<rparr>
                    else s);
               s = (if stat_due then s\<lparr>stati := 0, statc := 0\<rparr> else s)
           in s)
      else s)"

text \<open>The body of the loop.  A panic ends it.\<close>

definition iteration ::
  "'f float64_ops \<Rightarrow> rasterizer \<Rightarrow> config \<Rightarrow> image \<Rightarrow> RGBA list \<Rightarrow> int64 \<Rightarrow> int64 \<Rightarrow>
     sketch_state \<Rightarrow> panic + sketch_state" where
  "iteration F rast cfg img palette w h s =
     (case candidate cfg palette w h (rand s) of
        Inl e \<Rightarrow> Inl e
      | Inr (x1, y1, x2, y2, clr) \<Rightarrow>
          Inr (poll (resolve F rast img x1 y1 x2 y2 clr
                 (s\<lparr>stati := stati s + 1, rand := (\<lambda>n. rand s (n + 5))\<rparr>))))"

subsection \<open>The loop and the whole function\<close>

text \<open>
  \<open>for i := 0; i < iterLimit || iterLimit < 0; i++ { ... }\<close>.  The loop may run for ever,
  so it is given fuel: \<open>None\<close> says that the fuel did not suffice.
\<close>

fun sketch_loop ::
  "nat \<Rightarrow> 'f float64_ops \<Rightarrow> rasterizer \<Rightarrow> config \<Rightarrow> image \<Rightarrow> RGBA list \<Rightarrow> int64 \<Rightarrow> int64 \<Rightarrow>
     sketch_state \<Rightarrow> (panic + sketch_state) option" where
  "sketch_loop 0 F rast cfg img palette w h s = None"
| "sketch_loop (Suc fuel) F rast cfg img palette w h s =
     (if iter s <s iterLimit cfg \<or> iterLimit cfg <s 0
      then (case iteration F rast cfg img palette w h s of
              Inl e \<Rightarrow> Some (Inl e)
            | Inr s' \<Rightarrow> sketch_loop fuel F rast cfg img palette w h (s'\<lparr>iter := iter s' + 1\<rparr>))
      else Some (Inr s))"

text \<open>The background colour \<open>color.RGBA{0, 0, 0, 255}\<close>.\<close>

definition bg :: RGBA where
  "bg = RGBA 0 0 0 255"

text \<open>The state when the loop is entered.\<close>

definition initial_state ::
  "image \<Rightarrow> int64 \<Rightarrow> (nat \<Rightarrow> nat) \<Rightarrow> (nat \<Rightarrow> bool \<times> bool) \<Rightarrow> sketch_state" where
  "initial_state img incr rnd clk =
     \<lparr>iter = 0,
      img1 = Draw_uniform (NewRGBA (Rect img)) bg,
      img2 = Draw_uniform (NewRGBA (Rect img)) bg,
      stati = 0, statc = 0, incrSaveNum = incr, rand = rnd, clock = clk, written = []\<rparr>"

text \<open>The target \<open>img\<close>: the copy of the source image made by the first two loops.\<close>

definition target :: "image \<Rightarrow> image" where
  "target src = copy_rows src (Dx (Rect src)) (Dy (Rect src)) 0 (NewRGBA (Rect src))"

text \<open>
  \<open>sketch(src)\<close>.  The result is the files written, and the global counters
  \<open>incrSaveNum\<close> and \<open>saveNum\<close> afterwards.
\<close>

definition sketch ::
  "nat \<Rightarrow> 'f float64_ops \<Rightarrow> rasterizer \<Rightarrow> config \<Rightarrow> image \<Rightarrow> int64 \<Rightarrow> int64 \<Rightarrow>
     (nat \<Rightarrow> nat) \<Rightarrow> (nat \<Rightarrow> bool \<times> bool) \<Rightarrow> (panic + snapshot list \<times> int64 \<times> int64) option" where
  "sketch fuel F rast cfg src incr saveNum rnd clk =
     (let w = Dx (Rect src);
          h = Dy (Rect src);
          img = target src;
          palette = build_palette (palletize cfg) img w h
      in case sketch_loop fuel F rast cfg img palette w h (initial_state img incr rnd clk) of
           None \<Rightarrow> None
         | Some (Inl e) \<Rightarrow> Some (Inl e)
         | Some (Inr s) \<Rightarrow>
             Some (Inr (written s @ [Frame_file saveNum (img2 s)], incrSaveNum s, saveNum + 1)))"

section \<open>The distance between two colours\<close>

text \<open>
  The Euclidean distance of the specification in the four channels, with the operations of
  \<open>float64\<close>: every channel difference squared, the four squares added, the square root
  of the sum.  The channels are the 16-bit values of \<open>RGBA()\<close>.
\<close>

definition channel_sq :: "'f float64_ops \<Rightarrow> uint8 \<Rightarrow> uint8 \<Rightarrow> 'f" where
  "channel_sq F u v =
     fmul F (fsub F (of_uint32 F (widen v)) (of_uint32 F (widen u)))
            (fsub F (of_uint32 F (widen v)) (of_uint32 F (widen u)))"

definition distance :: "'f float64_ops \<Rightarrow> RGBA \<Rightarrow> RGBA \<Rightarrow> 'f" where
  "distance F c d =
     fsqrt F (fadd F (fadd F (fadd F (channel_sq F (cR c) (cR d)) (channel_sq F (cG c) (cG d)))
                             (channel_sq F (cB c) (cB d)))
                     (channel_sq F (cA c) (cA d)))"

text \<open>The same distance on the reals.\<close>

definition channel :: "uint8 \<Rightarrow> real" where
  "channel u = real (unat (widen u))"

definition euclidean_distance :: "RGBA \<Rightarrow> RGBA \<Rightarrow> real" where
  "euclidean_distance c d =
     sqrt ((channel (cR d) - channel (cR c))\<^sup>2 + (channel (cG d) - channel (cG c))\<^sup>2 +
           (channel (cB d) - channel (cB c))\<^sup>2 + (channel (cA d) - channel (cA c))\<^sup>2)"

text \<open>
  What the zero identity of the score needs of \<open>float64\<close>: \<open>x - x\<close> is zero for a converted
  integer, and \<open>0 * 0\<close>, \<open>0 + 0\<close> and \<open>math.Sqrt(0)\<close> are zero.
\<close>

definition float64_zero_laws :: "'f float64_ops \<Rightarrow> bool" where
  "float64_zero_laws F \<longleftrightarrow>
     (\<forall>u. fsub F (of_uint32 F u) (of_uint32 F u) = fzero F) \<and>
     fmul F (fzero F) (fzero F) = fzero F \<and>
     fadd F (fzero F) (fzero F) = fzero F \<and>
     fsqrt F (fzero F) = fzero F"

text \<open>
  What the sign of the score needs of \<open>float64\<close>: zero is not below zero, no square
  \<open>x * x\<close> is below zero, and the sum and the square root of numbers not below zero are
  not below zero.
\<close>

definition float64_sign_laws :: "'f float64_ops \<Rightarrow> bool" where
  "float64_sign_laws F \<longleftrightarrow>
     \<not> flt F (fzero F) (fzero F) \<and>
     (\<forall>x. \<not> flt F (fmul F x x) (fzero F)) \<and>
     (\<forall>x y. \<not> flt F x (fzero F) \<longrightarrow> \<not> flt F y (fzero F) \<longrightarrow> \<not> flt F (fadd F x y) (fzero F)) \<and>
     (\<forall>x. \<not> flt F x (fzero F) \<longrightarrow> \<not> flt F (fsqrt F x) (fzero F))"

section \<open>Example inputs\<close>

text \<open>Two 3 by 2 buffers, each of one colour.\<close>

definition img_a :: image where
  "img_a = \<lparr>Rect = \<lparr>MinX = 0, MinY = 0, MaxX = 3, MaxY = 2\<rparr>, Pix = (\<lambda>p. RGBA 10 20 30 255)\<rparr>"

definition img_b :: image where
  "img_b = \<lparr>Rect = \<lparr>MinX = 0, MinY = 0, MaxX = 3, MaxY = 2\<rparr>, Pix = (\<lambda>p. RGBA 1 2 3 4)\<rparr>"

text \<open>\<open>img_a\<close> with another colour at \<open>(1, 1)\<close>.\<close>

definition img_c :: image where
  "img_c = Set_px img_a 1 1 (RGBA 9 9 9 9)"

text \<open>
  A run on the target \<open>img_a\<close>: line length 4, the palette of one colour, and a random
  source whose first five numbers give the segment from \<open>(0, 0)\<close> to \<open>(-2, 1)\<close>.
\<close>

definition cfg_a :: config where
  "cfg_a = \<lparr>iterLimit = 1, lineLen = 4, palletize = True\<rparr>"

definition rnd_a :: "nat \<Rightarrow> nat" where
  "rnd_a n = (if n = 3 then 3 else 0)"

definition clk_a :: "nat \<Rightarrow> bool \<times> bool" where
  "clk_a n = (False, False)"

definition state_a :: sketch_state where
  "state_a = initial_state img_a 1 rnd_a clk_a"

text \<open>The empty image, and a 2 by 2 image of three colours.\<close>

definition img_empty :: image where
  "img_empty = NewRGBA \<lparr>MinX = 0, MinY = 0, MaxX = 0, MaxY = 0\<rparr>"

definition img_four :: image where
  "img_four = \<lparr>Rect = \<lparr>MinX = 0, MinY = 0, MaxX = 2, MaxY = 2\<rparr>,
     Pix = (\<lambda>p. if p = (0, 0) then RGBA 255 0 0 255 else if p = (1, 0) then RGBA 0 255 0 255
               else if p = (0, 1) then RGBA 0 255 0 255 else RGBA 255 255 255 255)\<rparr>"

text \<open>The configuration \<open>cfg_a\<close> with no budget at all, and with an unbounded one.\<close>

definition cfg_zero :: config where
  "cfg_zero = \<lparr>iterLimit = 0, lineLen = 4, palletize = True\<rparr>"

definition cfg_unbounded :: config where
  "cfg_unbounded = \<lparr>iterLimit = - 1, lineLen = 4, palletize = False\<rparr>"

section \<open>Iteration boundaries, counted iterations, the row-major scan\<close>

text \<open>
  The states at the head of the loop: the state the loop is entered with, and every state
  that the body followed by \<open>i++\<close> produces from one of them while the loop condition
  holds.
\<close>

inductive boundary ::
  "'f float64_ops \<Rightarrow> rasterizer \<Rightarrow> config \<Rightarrow> image \<Rightarrow> RGBA list \<Rightarrow> int64 \<Rightarrow> int64 \<Rightarrow>
     sketch_state \<Rightarrow> sketch_state \<Rightarrow> bool"
  for F rast cfg img palette w h s0 where
    boundary_start: "boundary F rast cfg img palette w h s0 s0"
  | boundary_step:
      "boundary F rast cfg img palette w h s0 s \<Longrightarrow>
       iter s <s iterLimit cfg \<or> iterLimit cfg <s 0 \<Longrightarrow>
       iteration F rast cfg img palette w h s = Inr s' \<Longrightarrow>
       boundary F rast cfg img palette w h s0 (s'\<lparr>iter := iter s' + 1\<rparr>)"


text \<open>
  The coordinates \<open>0, ..., n - 1\<close> of a loop \<open>for x := 0; x < n; x++\<close>, and the row-major
  scan of the two nested loops: rows from \<open>0\<close> to \<open>h - 1\<close>, in each row the columns from
  \<open>0\<close> to \<open>w - 1\<close>.
\<close>

definition below :: "int64 \<Rightarrow> int64 list" where
  "below n = map word_of_int [0..sint n - 1]"

definition row_major :: "int64 \<Rightarrow> int64 \<Rightarrow> (int64 \<times> int64) list" where
  "row_major w h = concat (map (\<lambda>y. map (\<lambda>x. (x, y)) (below w)) (below h))"

text \<open>The colours of an image in the order of the row-major scan.\<close>

definition scan_colours :: "image \<Rightarrow> int64 \<Rightarrow> int64 \<Rightarrow> RGBA list" where
  "scan_colours img w h = map (\<lambda>p. At img (fst p) (snd p)) (row_major w h)"

text \<open>A list without its repetitions, every element at the place where it is first seen.\<close>

definition first_seen :: "'a list \<Rightarrow> 'a list" where
  "first_seen xs = rev (remdups (rev xs))"




section \<open>Both traversals follow the coordinate path\<close>

lemma score_step_pair: "score_step F a b dif (x, y) = fadd F dif (calcdiff F a b x y)"
  by (simp add: score_step_def)

lemma copy_step_pair: "copy_step src img (x, y) = Set_px img x y (At src x y)"
  by (simp add: copy_step_def)

lemma bdiff_horizontal_path:
  "bdiff_horizontal F a b dx x1 y1 dif =
     (x1 + dx, foldl (score_step F a b) dif (path_horizontal dx x1 y1))"
  by (induction F a b dx x1 y1 dif rule: bdiff_horizontal.induct)
    (subst bdiff_horizontal.simps, subst path_horizontal.simps, simp add: score_step_pair)

lemma bdiff_vertical_path:
  "bdiff_vertical F a b dy x1 y1 dif =
     (y1 + dy, foldl (score_step F a b) dif (path_vertical dy x1 y1))"
  by (induction F a b dy x1 y1 dif rule: bdiff_vertical.induct)
    (subst bdiff_vertical.simps, subst path_vertical.simps, simp add: score_step_pair)

lemma bdiff_diagonal_inc_path:
  "bdiff_diagonal_inc F a b dx x1 y1 dif =
     (x1 + dx, y1 + dx, foldl (score_step F a b) dif (path_diagonal_inc dx x1 y1))"
  by (induction F a b dx x1 y1 dif rule: bdiff_diagonal_inc.induct)
    (subst bdiff_diagonal_inc.simps, subst path_diagonal_inc.simps, simp add: score_step_pair)

lemma bdiff_diagonal_dec_path:
  "bdiff_diagonal_dec F a b dx x1 y1 dif =
     (x1 + dx, y1 - dx, foldl (score_step F a b) dif (path_diagonal_dec dx x1 y1))"
  by (induction F a b dx x1 y1 dif rule: bdiff_diagonal_dec.induct)
    (subst bdiff_diagonal_dec.simps, subst path_diagonal_dec.simps, simp add: score_step_pair)

lemma bdiff_wide_inc_path:
  "bdiff_wide_inc F a b dy slope dx x1 y1 e dif =
     foldl (score_step F a b) dif (path_wide_inc dy slope dx x1 y1 e)"
  by (induction F a b dy slope dx x1 y1 e dif rule: bdiff_wide_inc.induct)
    (subst bdiff_wide_inc.simps, subst path_wide_inc.simps, simp add: score_step_pair)

lemma bdiff_wide_dec_path:
  "bdiff_wide_dec F a b dy slope dx x1 y1 e dif =
     foldl (score_step F a b) dif (path_wide_dec dy slope dx x1 y1 e)"
  by (induction F a b dy slope dx x1 y1 e dif rule: bdiff_wide_dec.induct)
    (subst bdiff_wide_dec.simps, subst path_wide_dec.simps, simp add: score_step_pair)

lemma bdiff_tall_inc_path:
  "bdiff_tall_inc F a b dx slope dy x1 y1 e dif =
     foldl (score_step F a b) dif (path_tall_inc dx slope dy x1 y1 e)"
  by (induction F a b dx slope dy x1 y1 e dif rule: bdiff_tall_inc.induct)
    (subst bdiff_tall_inc.simps, subst path_tall_inc.simps, simp add: score_step_pair)

lemma bdiff_tall_dec_path:
  "bdiff_tall_dec F a b dx slope dy x1 y1 e dif =
     foldl (score_step F a b) dif (path_tall_dec dx slope dy x1 y1 e)"
  by (induction F a b dx slope dy x1 y1 e dif rule: bdiff_tall_dec.induct)
    (subst bdiff_tall_dec.simps, subst path_tall_dec.simps, simp add: score_step_pair)

lemma bcopy_horizontal_path:
  "bcopy_horizontal img src dx x1 y1 =
     (x1 + dx, foldl (copy_step src) img (path_horizontal dx x1 y1))"
  by (induction img src dx x1 y1 rule: bcopy_horizontal.induct)
    (subst bcopy_horizontal.simps, subst path_horizontal.simps, simp add: copy_step_pair)

lemma bcopy_vertical_path:
  "bcopy_vertical img src dy x1 y1 =
     (y1 + dy, foldl (copy_step src) img (path_vertical dy x1 y1))"
  by (induction img src dy x1 y1 rule: bcopy_vertical.induct)
    (subst bcopy_vertical.simps, subst path_vertical.simps, simp add: copy_step_pair)

lemma bcopy_diagonal_inc_path:
  "bcopy_diagonal_inc img src dx x1 y1 =
     (x1 + dx, y1 + dx, foldl (copy_step src) img (path_diagonal_inc dx x1 y1))"
  by (induction img src dx x1 y1 rule: bcopy_diagonal_inc.induct)
    (subst bcopy_diagonal_inc.simps, subst path_diagonal_inc.simps, simp add: copy_step_pair)

lemma bcopy_diagonal_dec_path:
  "bcopy_diagonal_dec img src dx x1 y1 =
     (x1 + dx, y1 - dx, foldl (copy_step src) img (path_diagonal_dec dx x1 y1))"
  by (induction img src dx x1 y1 rule: bcopy_diagonal_dec.induct)
    (subst bcopy_diagonal_dec.simps, subst path_diagonal_dec.simps, simp add: copy_step_pair)

lemma bcopy_wide_inc_path:
  "bcopy_wide_inc img src dy slope dx x1 y1 e =
     foldl (copy_step src) img (path_wide_inc dy slope dx x1 y1 e)"
  by (induction img src dy slope dx x1 y1 e rule: bcopy_wide_inc.induct)
    (subst bcopy_wide_inc.simps, subst path_wide_inc.simps, simp add: copy_step_pair)

lemma bcopy_wide_dec_path:
  "bcopy_wide_dec img src dy slope dx x1 y1 e =
     foldl (copy_step src) img (path_wide_dec dy slope dx x1 y1 e)"
  by (induction img src dy slope dx x1 y1 e rule: bcopy_wide_dec.induct)
    (subst bcopy_wide_dec.simps, subst path_wide_dec.simps, simp add: copy_step_pair)

lemma bcopy_tall_inc_path:
  "bcopy_tall_inc img src dx slope dy x1 y1 e =
     foldl (copy_step src) img (path_tall_inc dx slope dy x1 y1 e)"
  by (induction img src dx slope dy x1 y1 e rule: bcopy_tall_inc.induct)
    (subst bcopy_tall_inc.simps, subst path_tall_inc.simps, simp add: copy_step_pair)

lemma bcopy_tall_dec_path:
  "bcopy_tall_dec img src dx slope dy x1 y1 e =
     foldl (copy_step src) img (path_tall_dec dx slope dy x1 y1 e)"
  by (induction img src dx slope dy x1 y1 e rule: bcopy_tall_dec.induct)
    (subst bcopy_tall_dec.simps, subst path_tall_dec.simps, simp add: copy_step_pair)

lemmas bdiff_loops_path = bdiff_horizontal_path bdiff_vertical_path bdiff_diagonal_inc_path
  bdiff_diagonal_dec_path bdiff_wide_inc_path bdiff_wide_dec_path bdiff_tall_inc_path
  bdiff_tall_dec_path

lemmas bcopy_loops_path = bcopy_horizontal_path bcopy_vertical_path bcopy_diagonal_inc_path
  bcopy_diagonal_dec_path bcopy_wide_inc_path bcopy_wide_dec_path bcopy_tall_inc_path
  bcopy_tall_dec_path

lemma bdiff_score_along:
  "bdiff F a b x1 y1 x2 y2 = score_along F a b (coordinate_path x1 y1 x2 y2)"
  by (simp add: bdiff_def coordinate_path_def score_along_def bdiff_loops_path Let_def
        score_step_pair split: prod.split)

lemma bcopy_commit_along:
  "bcopy img src x1 y1 x2 y2 = commit_along img src (coordinate_path x1 y1 x2 y2)"
  by (simp add: bcopy_def coordinate_path_def commit_along_def bcopy_loops_path Let_def
        copy_step_pair split: prod.split)

text \<open>
  Claim C9.  For every pair of end points, \<open>bdiff\<close> and \<open>bcopy\<close> traverse the same
  coordinate sequence: the score is the sum of \<open>calcdiff\<close> along the coordinate path of the
  end points, and the copy is the pixel-by-pixel copy along that same path, whatever the
  images and the arithmetic are.
\<close>

theorem bdiff_bcopy_same_path:
  "bdiff F a b x1 y1 x2 y2 = score_along F a b (coordinate_path x1 y1 x2 y2) \<and>
   bcopy img src x1 y1 x2 y2 = commit_along img src (coordinate_path x1 y1 x2 y2)"
  by (simp add: bdiff_score_along bcopy_commit_along)

section \<open>Pixels after a copy along a path\<close>

lemma Rect_Set_px: "Rect (Set_px img x y c) = Rect img"
  by (simp add: Set_px_def)

lemma At_Set_px:
  "At (Set_px img x y c) x' y' =
     (if x' = x \<and> y' = y \<and> In_rect x y (Rect img) then c else At img x' y')"
  by (auto simp: Set_px_def At_def)

lemma At_outside: "\<not> In_rect x y (Rect img) \<Longrightarrow> At img x y = RGBA 0 0 0 0"
  by (simp add: At_def)

lemma Set_px_outside: "\<not> In_rect x y (Rect img) \<Longrightarrow> Set_px img x y c = img"
  by (simp add: Set_px_def)

lemma Pix_Set_px_other:
  "(x', y') \<noteq> (x, y) \<Longrightarrow> Pix (Set_px img x y c) (x', y') = Pix img (x', y')"
  by (auto simp: Set_px_def)

lemma Rect_commit_along: "Rect (commit_along dst src ps) = Rect dst"
  unfolding commit_along_def
  by (induction ps arbitrary: dst) (simp_all add: copy_step_def Rect_Set_px)

lemma At_commit_along:
  "At (commit_along dst src ps) x y =
     (if (x, y) \<in> set ps \<and> In_rect x y (Rect dst) then At src x y else At dst x y)"
  unfolding commit_along_def
proof (induction ps arbitrary: dst)
  case Nil
  show ?case by simp
next
  case (Cons p ps)
  obtain u v where p: "p = (u, v)" by (cases p)
  show ?case
    by (auto simp: Cons.IH p copy_step_pair Rect_Set_px At_Set_px)
qed

lemma Pix_commit_along_outside:
  "(x, y) \<notin> set ps \<Longrightarrow> Pix (commit_along dst src ps) (x, y) = Pix dst (x, y)"
  unfolding commit_along_def
proof (induction ps arbitrary: dst)
  case Nil
  show ?case by simp
next
  case (Cons p ps)
  obtain u v where p: "p = (u, v)" by (cases p)
  from Cons.prems show ?case
    by (simp add: Cons.IH p copy_step_pair Pix_Set_px_other)
qed

lemma commit_along_cong:
  "(\<And>p. p \<in> set ps \<Longrightarrow> At src' (fst p) (snd p) = At src (fst p) (snd p)) \<Longrightarrow>
   commit_along dst src' ps = commit_along dst src ps"
  unfolding commit_along_def
  by (induction ps arbitrary: dst) (simp_all add: copy_step_def)

lemma At_commit_along_on_path:
  assumes "(x, y) \<in> set ps" and "In_rect x y (Rect dst) \<or> Rect src = Rect dst"
  shows "At (commit_along dst src ps) x y = At src x y"
proof (cases "In_rect x y (Rect dst)")
  case True
  with assms(1) show ?thesis by (simp add: At_commit_along)
next
  case False
  with assms(2) have "Rect src = Rect dst" by simp
  with False have "At src x y = RGBA 0 0 0 0" and "At dst x y = RGBA 0 0 0 0"
    by (simp_all add: At_outside)
  with False show ?thesis by (simp add: At_commit_along)
qed

text \<open>
  Claim C4.  After \<open>bcopy(dst, src, ...)\<close> the destination keeps its bounds, every pixel of
  the destination outside the coordinate path is unchanged, every pixel on the path
  equals the pixel of the source there (the two buffers having the same bounds, or the
  coordinate lying inside the destination), and the result does not depend on any pixel
  of the source outside the path.
\<close>

theorem bcopy_path_local:
  "Rect (bcopy dst src x1 y1 x2 y2) = Rect dst \<and>
   ((x, y) \<notin> set (coordinate_path x1 y1 x2 y2) \<longrightarrow>
      At (bcopy dst src x1 y1 x2 y2) x y = At dst x y \<and>
      Pix (bcopy dst src x1 y1 x2 y2) (x, y) = Pix dst (x, y)) \<and>
   ((x, y) \<in> set (coordinate_path x1 y1 x2 y2) \<and>
    (In_rect x y (Rect dst) \<or> Rect src = Rect dst) \<longrightarrow>
      At (bcopy dst src x1 y1 x2 y2) x y = At src x y) \<and>
   ((\<forall>p \<in> set (coordinate_path x1 y1 x2 y2).
       At src' (fst p) (snd p) = At src (fst p) (snd p)) \<longrightarrow>
      bcopy dst src' x1 y1 x2 y2 = bcopy dst src x1 y1 x2 y2)"
proof (intro conjI impI)
  show "Rect (bcopy dst src x1 y1 x2 y2) = Rect dst"
    by (simp add: bcopy_commit_along Rect_commit_along)
next
  assume "(x, y) \<notin> set (coordinate_path x1 y1 x2 y2)"
  then show "At (bcopy dst src x1 y1 x2 y2) x y = At dst x y"
    and "Pix (bcopy dst src x1 y1 x2 y2) (x, y) = Pix dst (x, y)"
    by (simp_all add: bcopy_commit_along At_commit_along Pix_commit_along_outside)
next
  assume "(x, y) \<in> set (coordinate_path x1 y1 x2 y2) \<and>
    (In_rect x y (Rect dst) \<or> Rect src = Rect dst)"
  then show "At (bcopy dst src x1 y1 x2 y2) x y = At src x y"
    by (simp add: bcopy_commit_along At_commit_along_on_path)
next
  assume "\<forall>p \<in> set (coordinate_path x1 y1 x2 y2).
    At src' (fst p) (snd p) = At src (fst p) (snd p)"
  then show "bcopy dst src' x1 y1 x2 y2 = bcopy dst src x1 y1 x2 y2"
    unfolding bcopy_commit_along by (intro commit_along_cong) simp
qed

theorem bcopy_path_local_witness:
  "(1, 1) \<notin> set (coordinate_path 0 0 2 1) \<and> (1, 0) \<in> set (coordinate_path 0 0 2 1) \<and>
   Rect img_b = Rect img_a \<and>
   At (bcopy img_a img_b 0 0 2 1) 1 1 = At img_a 1 1 \<and> At img_a 1 1 = RGBA 10 20 30 255 \<and>
   At (bcopy img_a img_b 0 0 2 1) 1 0 = At img_b 1 0 \<and> At img_b 1 0 = RGBA 1 2 3 4"
proof -
  have off: "(1, 1) \<notin> set (coordinate_path 0 0 (2::int64) 1)" by code_simp
  have on: "(1, 0) \<in> set (coordinate_path 0 0 (2::int64) 1)" by code_simp
  have rect: "Rect img_b = Rect img_a" by code_simp
  have va: "At img_a 1 1 = RGBA 10 20 30 255" by code_simp
  have vb: "At img_b 1 0 = RGBA 1 2 3 4" by code_simp
  from bcopy_path_local [of img_a img_b 0 0 2 1 1 1 img_b] off
  have 1: "At (bcopy img_a img_b 0 0 2 1) 1 1 = At img_a 1 1" by blast
  from bcopy_path_local [of img_a img_b 0 0 2 1 1 0 img_b] on rect
  have 2: "At (bcopy img_a img_b 0 0 2 1) 1 0 = At img_b 1 0" by blast
  from off on rect va vb 1 2 show ?thesis by simp
qed

section \<open>The score along a path\<close>

lemma calcdiff_distance: "calcdiff F a b x y = distance F (At a x y) (At b x y)"
  by (simp add: calcdiff_def distance_def channel_sq_def RGBA_values_def Let_def)

lemma calcdiff_cong:
  "At a' x y = At a x y \<Longrightarrow> At b' x y = At b x y \<Longrightarrow> calcdiff F a' b' x y = calcdiff F a b x y"
  by (simp add: calcdiff_distance)

lemma score_foldl_cong:
  assumes "\<And>p. p \<in> set ps \<Longrightarrow> At a' (fst p) (snd p) = At a (fst p) (snd p)"
    and "\<And>p. p \<in> set ps \<Longrightarrow> At b' (fst p) (snd p) = At b (fst p) (snd p)"
  shows "foldl (score_step F a' b') d ps = foldl (score_step F a b) d ps"
  using assms
proof (induction ps arbitrary: d)
  case Nil
  show ?case by simp
next
  case (Cons p ps)
  have 1: "score_step F a' b' d p = score_step F a b d p"
    unfolding score_step_def using Cons.prems(1) [of p] Cons.prems(2) [of p]
    by (simp add: calcdiff_distance)
  have 2: "foldl (score_step F a' b') (score_step F a b d p) ps =
      foldl (score_step F a b) (score_step F a b d p) ps"
    by (rule Cons.IH) (simp_all add: Cons.prems)
  show ?case by (simp only: foldl_Cons 1 2)
qed

lemma score_along_cong:
  "(\<And>p. p \<in> set ps \<Longrightarrow> At a' (fst p) (snd p) = At a (fst p) (snd p)) \<Longrightarrow>
   (\<And>p. p \<in> set ps \<Longrightarrow> At b' (fst p) (snd p) = At b (fst p) (snd p)) \<Longrightarrow>
   score_along F a' b' ps = score_along F a b ps"
  unfolding score_along_def by (rule score_foldl_cong)

lemma score_step_distance:
  "score_step F a b = (\<lambda>dif p. fadd F dif (distance F (At a (fst p) (snd p)) (At b (fst p) (snd p))))"
  by (intro ext) (simp add: score_step_def calcdiff_distance)

lemma distance_real: "distance real_ops c d = euclidean_distance c d"
  by (simp add: distance_def euclidean_distance_def channel_sq_def channel_def real_ops_def
      power2_eq_square)

lemma foldl_add_real: "foldl (\<lambda>dif p. dif + f p) z ps = z + sum_list (map f ps)" for z :: real
  by (induction ps arbitrary: z) simp_all

lemma score_along_real:
  "score_along real_ops a b ps =
     (\<Sum>p\<leftarrow>ps. euclidean_distance (At a (fst p) (snd p)) (At b (fst p) (snd p)))"
proof -
  have "score_step real_ops a b =
      (\<lambda>dif p. dif + euclidean_distance (At a (fst p) (snd p)) (At b (fst p) (snd p)))"
    by (simp add: score_step_distance distance_real) (simp add: real_ops_def)
  then show ?thesis
    by (simp add: score_along_def foldl_add_real) (simp add: real_ops_def)
qed

text \<open>
  Claim C2.  The score of two images along a segment is the sum, over the coordinate path
  and starting from zero, of the distance of the two pixels at each coordinate: channel
  differences squared, the four squares added, and the square root taken for each
  coordinate before it is added.  On the reals this is the sum of the Euclidean
  distances.  The score is a function of the two images and the end points, and pixels at
  coordinates outside the path have no influence on it.
\<close>

theorem bdiff_sum_of_distances:
  "bdiff F a b x1 y1 x2 y2 =
     foldl (\<lambda>dif p. fadd F dif (distance F (At a (fst p) (snd p)) (At b (fst p) (snd p))))
       (fzero F) (coordinate_path x1 y1 x2 y2) \<and>
   bdiff real_ops a b x1 y1 x2 y2 =
     (\<Sum>p\<leftarrow>coordinate_path x1 y1 x2 y2.
        euclidean_distance (At a (fst p) (snd p)) (At b (fst p) (snd p))) \<and>
   ((\<forall>p \<in> set (coordinate_path x1 y1 x2 y2).
       At a' (fst p) (snd p) = At a (fst p) (snd p) \<and>
       At b' (fst p) (snd p) = At b (fst p) (snd p)) \<longrightarrow>
      bdiff F a' b' x1 y1 x2 y2 = bdiff F a b x1 y1 x2 y2)"
proof (intro conjI impI)
  show "bdiff F a b x1 y1 x2 y2 =
     foldl (\<lambda>dif p. fadd F dif (distance F (At a (fst p) (snd p)) (At b (fst p) (snd p))))
       (fzero F) (coordinate_path x1 y1 x2 y2)"
    by (simp add: bdiff_score_along score_along_def score_step_distance)
next
  show "bdiff real_ops a b x1 y1 x2 y2 =
     (\<Sum>p\<leftarrow>coordinate_path x1 y1 x2 y2.
        euclidean_distance (At a (fst p) (snd p)) (At b (fst p) (snd p)))"
    by (simp add: bdiff_score_along score_along_real)
next
  assume "\<forall>p \<in> set (coordinate_path x1 y1 x2 y2).
       At a' (fst p) (snd p) = At a (fst p) (snd p) \<and>
       At b' (fst p) (snd p) = At b (fst p) (snd p)"
  then show "bdiff F a' b' x1 y1 x2 y2 = bdiff F a b x1 y1 x2 y2"
    unfolding bdiff_score_along by (intro score_along_cong) simp_all
qed

theorem bdiff_sum_of_distances_witness:
  "coordinate_path 0 0 2 1 = [(0, 0), (1, 0), (2, 1)] \<and>
   At img_c 0 0 = At img_a 0 0 \<and> At img_c 1 0 = At img_a 1 0 \<and> At img_c 2 1 = At img_a 2 1 \<and>
   At img_c 1 1 \<noteq> At img_a 1 1 \<and>
   bdiff real_ops img_c img_b 0 0 2 1 = bdiff real_ops img_a img_b 0 0 2 1 \<and>
   bdiff real_ops img_a img_b 0 0 2 1 =
     3 * euclidean_distance (RGBA 10 20 30 255) (RGBA 1 2 3 4)"
proof -
  have path: "coordinate_path 0 0 2 1 = [(0, 0), (1, 0), (2 :: int64, 1 :: int64)]"
    by code_simp
  have same: "\<forall>p \<in> set (coordinate_path 0 0 2 1).
      At img_c (fst p) (snd p) = At img_a (fst p) (snd p) \<and>
      At img_b (fst p) (snd p) = At img_b (fst p) (snd p)"
    unfolding path by code_simp
  have other: "At img_c 1 1 \<noteq> At img_a 1 1"
    by code_simp
  have a: "At img_a 0 0 = RGBA 10 20 30 255" "At img_a 1 0 = RGBA 10 20 30 255"
    "At img_a 2 1 = RGBA 10 20 30 255"
    by (simp_all add: img_a_def At_def In_rect_def word_sle_eq word_sless_alt)
  have b: "At img_b 0 0 = RGBA 1 2 3 4" "At img_b 1 0 = RGBA 1 2 3 4"
    "At img_b 2 1 = RGBA 1 2 3 4"
    by (simp_all add: img_b_def At_def In_rect_def word_sle_eq word_sless_alt)
  note inst = bdiff_sum_of_distances [of real_ops img_a img_b 0 0 2 1 img_c img_b]
  from inst same have "bdiff real_ops img_c img_b 0 0 2 1 = bdiff real_ops img_a img_b 0 0 2 1"
    by blast
  moreover from inst have "bdiff real_ops img_a img_b 0 0 2 1 =
      3 * euclidean_distance (RGBA 10 20 30 255) (RGBA 1 2 3 4)"
    by (simp add: path a b)
  moreover have "At img_c 0 0 = At img_a 0 0" "At img_c 1 0 = At img_a 1 0"
    "At img_c 2 1 = At img_a 2 1"
    using same unfolding path by simp_all
  ultimately show ?thesis using path other by blast
qed

section \<open>Zero and sign of the score\<close>

lemma distance_same:
  assumes "float64_zero_laws F"
  shows "distance F c c = fzero F"
proof -
  have sq: "channel_sq F u u = fzero F" for u
    using assms by (simp add: channel_sq_def float64_zero_laws_def)
  show ?thesis
    using assms by (simp add: distance_def sq float64_zero_laws_def)
qed

lemma score_foldl_same:
  assumes "float64_zero_laws F"
  shows "foldl (score_step F a a) (fzero F) ps = fzero F"
proof (induction ps)
  case Nil
  show ?case by simp
next
  case (Cons p ps)
  have "score_step F a a (fzero F) p = fzero F"
    using assms by (simp add: score_step_def calcdiff_distance distance_same float64_zero_laws_def)
  with Cons show ?case by simp
qed

lemma distance_sign:
  assumes "float64_sign_laws F"
  shows "\<not> flt F (distance F c d) (fzero F)"
proof -
  have sq: "\<not> flt F (channel_sq F u v) (fzero F)" for u v
    using assms by (simp add: channel_sq_def float64_sign_laws_def)
  have add: "\<not> flt F (fadd F x y) (fzero F)"
    if "\<not> flt F x (fzero F)" and "\<not> flt F y (fzero F)" for x y
    using assms that by (simp add: float64_sign_laws_def)
  have root: "\<not> flt F (fsqrt F x) (fzero F)" if "\<not> flt F x (fzero F)" for x
    using assms that by (simp add: float64_sign_laws_def)
  show ?thesis
    unfolding distance_def by (intro root add sq)
qed

lemma score_foldl_sign:
  assumes "float64_sign_laws F" and "\<not> flt F d (fzero F)"
  shows "\<not> flt F (foldl (score_step F a b) d ps) (fzero F)"
  using assms(2)
proof (induction ps arbitrary: d)
  case Nil
  then show ?case by simp
next
  case (Cons p ps)
  have "\<not> flt F (calcdiff F a b (fst p) (snd p)) (fzero F)"
    using assms(1) by (simp add: calcdiff_distance distance_sign)
  with Cons.prems assms(1) have "\<not> flt F (score_step F a b d p) (fzero F)"
    by (simp add: score_step_def float64_sign_laws_def)
  then have "\<not> flt F (foldl (score_step F a b) (score_step F a b d p) ps) (fzero F)"
    by (rule Cons.IH)
  then show ?case by simp
qed

lemma real_ops_zero_laws: "float64_zero_laws real_ops"
  by (simp add: float64_zero_laws_def real_ops_def)

lemma real_ops_sign_laws: "float64_sign_laws real_ops"
  by (simp add: float64_sign_laws_def real_ops_def)

text \<open>
  Claim C5.  The score of an image against itself is exactly zero along every segment,
  and no score is below zero; the first needs of \<open>float64\<close> that \<open>x - x\<close>, \<open>0 * 0\<close>,
  \<open>0 + 0\<close> and \<open>math.Sqrt(0)\<close> are zero, the second that no square \<open>x * x\<close> is below
  zero and that sums and square roots of numbers not below zero are not below zero.
\<close>

theorem bdiff_zero_and_sign:
  "(float64_zero_laws F \<longrightarrow> bdiff F a a x1 y1 x2 y2 = fzero F) \<and>
   (float64_sign_laws F \<longrightarrow> \<not> flt F (bdiff F a b x1 y1 x2 y2) (fzero F))"
proof (intro conjI impI)
  assume "float64_zero_laws F"
  then show "bdiff F a a x1 y1 x2 y2 = fzero F"
    by (simp add: bdiff_score_along score_along_def score_foldl_same)
next
  assume laws: "float64_sign_laws F"
  then have "\<not> flt F (fzero F) (fzero F)"
    by (simp add: float64_sign_laws_def)
  with laws show "\<not> flt F (bdiff F a b x1 y1 x2 y2) (fzero F)"
    by (simp add: bdiff_score_along score_along_def score_foldl_sign)
qed

theorem bdiff_zero_and_sign_witness:
  "float64_zero_laws real_ops \<and> float64_sign_laws real_ops \<and>
   bdiff real_ops img_a img_a 0 0 2 1 = 0 \<and> \<not> bdiff real_ops img_a img_b 0 0 2 1 < 0"
proof -
  from bdiff_zero_and_sign [of real_ops img_a 0 0 2 1 img_b]
    real_ops_zero_laws real_ops_sign_laws
  have "bdiff real_ops img_a img_a 0 0 2 1 = fzero real_ops"
    and "\<not> flt real_ops (bdiff real_ops img_a img_b 0 0 2 1) (fzero real_ops)"
    by blast+
  moreover have "fzero real_ops = 0" and "flt real_ops = (<)"
    by (simp_all add: real_ops_def)
  ultimately show ?thesis
    using real_ops_zero_laws real_ops_sign_laws by simp
qed

section \<open>The decision of an iteration\<close>

lemma Rect_Bresenham: "Rect (Bresenham rast img x1 y1 x2 y2 clr) = Rect img"
proof -
  have "Rect (foldl (draw_step clr) img ps) = Rect img" for ps
    by (induction ps arbitrary: img) (simp_all add: draw_step_def Rect_Set_px)
  then show ?thesis by (simp add: Bresenham_def)
qed

lemma img1_poll: "img1 (poll s) = img1 s"
  by (simp add: poll_def Let_def split: prod.split)

lemma img2_poll: "img2 (poll s) = img2 s"
  by (simp add: poll_def Let_def split: prod.split)

lemma iter_poll: "iter (poll s) = iter s"
  by (simp add: poll_def Let_def split: prod.split)


lemma bdiff_after_bcopy:
  assumes "Rect src = Rect dst"
  shows "bdiff F a (bcopy dst src x1 y1 x2 y2) x1 y1 x2 y2 = bdiff F a src x1 y1 x2 y2"
  unfolding bdiff_score_along bcopy_commit_along
proof (rule score_along_cong)
  fix p assume "p \<in> set (coordinate_path x1 y1 x2 y2)"
  with assms
  show "At (commit_along dst src (coordinate_path x1 y1 x2 y2)) (fst p) (snd p) =
      At src (fst p) (snd p)"
    by (intro At_commit_along_on_path) simp_all
qed simp

lemma iteration_Inr:
  assumes "iteration F rast cfg img palette w h s = Inr s'"
  obtains x1 y1 x2 y2 clr where
    "candidate cfg palette w h (rand s) = Inr (x1, y1, x2, y2, clr)"
    "s' = poll (resolve F rast img x1 y1 x2 y2 clr
             (s\<lparr>stati := stati s + 1, rand := (\<lambda>n. rand s (n + 5))\<rparr>))"
  using assms by (auto simp: iteration_def split: sum.splits)

text \<open>
  Claim C1.  In every iteration that returns, with \<open>trial\<close> the trial buffer after the
  draw: if the score of the target against \<open>trial\<close> along the segment is strictly below
  the score against the best buffer, the path pixels of \<open>trial\<close> are copied into the best
  buffer, and the score of the new best buffer is strictly below the score of the old one;
  otherwise the path pixels of the best buffer are copied into \<open>trial\<close> and the best
  buffer is what it was.  The two buffers have the same bounds.
\<close>

theorem accept_or_reject:
  assumes "iteration F rast cfg img palette w h s = Inr s'"
    and "Rect (img1 s) = Rect (img2 s)"
  shows "\<exists>x1 y1 x2 y2 clr.
    candidate cfg palette w h (rand s) = Inr (x1, y1, x2, y2, clr) \<and>
    (let trial = Bresenham rast (img1 s) x1 y1 x2 y2 clr; best = img2 s in
     if flt F (bdiff F img trial x1 y1 x2 y2) (bdiff F img best x1 y1 x2 y2)
     then img1 s' = trial \<and> img2 s' = bcopy best trial x1 y1 x2 y2 \<and>
          flt F (bdiff F img (img2 s') x1 y1 x2 y2) (bdiff F img best x1 y1 x2 y2)
     else img1 s' = bcopy trial best x1 y1 x2 y2 \<and> img2 s' = best \<and>
          pixel_identical (img2 s') best)"
proof -
  from assms(1) obtain x1 y1 x2 y2 clr where
    cand: "candidate cfg palette w h (rand s) = Inr (x1, y1, x2, y2, clr)" and
    s': "s' = poll (resolve F rast img x1 y1 x2 y2 clr
             (s\<lparr>stati := stati s + 1, rand := (\<lambda>n. rand s (n + 5))\<rparr>))"
    by (rule iteration_Inr)
  define trial where "trial = Bresenham rast (img1 s) x1 y1 x2 y2 clr"
  have rect: "Rect trial = Rect (img2 s)"
    using assms(2) by (simp add: trial_def Rect_Bresenham)
  have after: "bdiff F img (bcopy (img2 s) trial x1 y1 x2 y2) x1 y1 x2 y2 =
      bdiff F img trial x1 y1 x2 y2"
    using rect by (rule bdiff_after_bcopy)
  have "if flt F (bdiff F img trial x1 y1 x2 y2) (bdiff F img (img2 s) x1 y1 x2 y2)
     then img1 s' = trial \<and> img2 s' = bcopy (img2 s) trial x1 y1 x2 y2 \<and>
          flt F (bdiff F img (img2 s') x1 y1 x2 y2) (bdiff F img (img2 s) x1 y1 x2 y2)
     else img1 s' = bcopy trial (img2 s) x1 y1 x2 y2 \<and> img2 s' = img2 s \<and>
          pixel_identical (img2 s') (img2 s)"
    by (simp add: s' img1_poll img2_poll resolve_def Let_def after pixel_identical_def
        flip: trial_def)
  with cand show ?thesis
    by (intro exI [of _ x1] exI [of _ y1] exI [of _ x2] exI [of _ y2] exI [of _ clr])
      (simp add: Let_def flip: trial_def)
qed

theorem accept_or_reject_witness:
  "Rect (img1 state_a) = Rect (img2 state_a) \<and>
   candidate cfg_a [RGBA 10 20 30 255] 3 2 (rand state_a) =
     Inr (0, 0, - 2, 1, RGBA 10 20 30 255) \<and>
   (\<exists>s'. iteration real_ops coordinate_path cfg_a img_a [RGBA 10 20 30 255] 3 2 state_a = Inr s' \<and>
      img2 s' = bcopy (img2 state_a)
        (Bresenham coordinate_path (img1 state_a) 0 0 (- 2) 1 (RGBA 10 20 30 255)) 0 0 (- 2) 1 \<and>
      bdiff real_ops img_a (img2 s') 0 0 (- 2) 1 < bdiff real_ops img_a (img2 state_a) 0 0 (- 2) 1)"
proof -
  define trial where
    "trial = Bresenham coordinate_path (img1 state_a) 0 0 (- 2) 1 (RGBA 10 20 30 255)"
  have rect: "Rect (img1 state_a) = Rect (img2 state_a)"
    by (simp add: state_a_def initial_state_def)
  have cand: "candidate cfg_a [RGBA 10 20 30 255] 3 2 (rand state_a) =
      Inr (0, 0, - 2, 1, RGBA 10 20 30 255)"
    by (simp add: candidate_def Intn_def cfg_a_def state_a_def initial_state_def rnd_a_def
        go_div_def signed_divide_int_def)
  then obtain s' where
    it: "iteration real_ops coordinate_path cfg_a img_a [RGBA 10 20 30 255] 3 2 state_a = Inr s'"
    by (simp add: iteration_def)
  have path: "coordinate_path 0 0 (- 2) 1 = [(- 2, 1), (- 1, 1), (0 :: int64, 0 :: int64)]"
    by code_simp
  have t: "At trial (- 2) 1 = RGBA 0 0 0 0" "At trial (- 1) 1 = RGBA 0 0 0 0"
    "At trial 0 0 = RGBA 10 20 30 255"
    unfolding trial_def by code_simp+
  have b: "At (img2 state_a) (- 2) 1 = RGBA 0 0 0 0" "At (img2 state_a) (- 1) 1 = RGBA 0 0 0 0"
    "At (img2 state_a) 0 0 = RGBA 0 0 0 255"
    by code_simp+
  have a: "At img_a (- 2) 1 = RGBA 0 0 0 0" "At img_a (- 1) 1 = RGBA 0 0 0 0"
    "At img_a 0 0 = RGBA 10 20 30 255"
    by code_simp+
  have "bdiff real_ops img_a trial 0 0 (- 2) 1 < bdiff real_ops img_a (img2 state_a) 0 0 (- 2) 1"
    by (simp add: bdiff_score_along score_along_real path a b t euclidean_distance_def
        channel_def widen_def)
  then have less: "flt real_ops (bdiff real_ops img_a trial 0 0 (- 2) 1)
      (bdiff real_ops img_a (img2 state_a) 0 0 (- 2) 1)"
    by (simp add: real_ops_def)
  have flt: "flt real_ops = (<)"
    by (simp add: real_ops_def)
  from accept_or_reject [OF it rect] cand less
  have 1: "img2 s' = bcopy (img2 state_a) trial 0 0 (- 2) 1"
    and 2: "flt real_ops (bdiff real_ops img_a (img2 s') 0 0 (- 2) 1)
        (bdiff real_ops img_a (img2 state_a) 0 0 (- 2) 1)"
    by (auto simp: Let_def simp flip: trial_def)
  from 2 have "bdiff real_ops img_a (img2 s') 0 0 (- 2) 1 <
      bdiff real_ops img_a (img2 state_a) 0 0 (- 2) 1"
    by (simp only: flt)
  with rect cand it 1 show ?thesis
    unfolding trial_def by blast
qed

section \<open>The two buffers at the iteration boundaries\<close>

lemma At_Bresenham_outside:
  assumes "(x, y) \<notin> set (rast x1 y1 x2 y2)"
  shows "At (Bresenham rast img x1 y1 x2 y2 clr) x y = At img x y"
proof -
  have "(x, y) \<notin> set ps \<Longrightarrow> At (foldl (draw_step clr) img ps) x y = At img x y" for ps
  proof (induction ps arbitrary: img)
    case Nil
    show ?case by simp
  next
    case (Cons p ps)
    obtain u v where p: "p = (u, v)" by (cases p)
    have "draw_step clr img p = Set_px img u v clr"
      by (simp add: draw_step_def p)
    with Cons.prems show ?case
      by (auto simp: Cons.IH p At_Set_px)
  qed
  with assms show ?thesis by (simp add: Bresenham_def)
qed

lemma pixel_identical_initial:
  "pixel_identical (img1 (initial_state img incr rnd clk)) (img2 (initial_state img incr rnd clk))"
  by (simp add: pixel_identical_def initial_state_def)

lemma At_trial_off_path:
  assumes "rast_covered rast" and "pixel_identical trial0 best"
    and "(x, y) \<notin> set (coordinate_path x1 y1 x2 y2)"
  shows "At (Bresenham rast trial0 x1 y1 x2 y2 clr) x y = At best x y"
proof -
  from assms(1,3) have "(x, y) \<notin> set (rast x1 y1 x2 y2)"
    unfolding rast_covered_def by blast
  then have "At (Bresenham rast trial0 x1 y1 x2 y2 clr) x y = At trial0 x y"
    by (rule At_Bresenham_outside)
  with assms(2) show ?thesis by (simp add: pixel_identical_def)
qed

lemma pixel_identical_resolve:
  assumes "rast_covered rast" and "pixel_identical (img1 s) (img2 s)"
  shows "pixel_identical (img1 (resolve F rast img x1 y1 x2 y2 clr s))
           (img2 (resolve F rast img x1 y1 x2 y2 clr s))"
proof -
  define trial where "trial = Bresenham rast (img1 s) x1 y1 x2 y2 clr"
  define ps where "ps = coordinate_path x1 y1 x2 y2"
  have rect: "Rect trial = Rect (img2 s)"
    using assms(2) by (simp add: trial_def Rect_Bresenham pixel_identical_def)
  have off: "At trial x y = At (img2 s) x y" if "(x, y) \<notin> set ps" for x y
    using assms that unfolding trial_def ps_def by (rule At_trial_off_path)
  have out: "At trial x y = At (img2 s) x y" if "\<not> In_rect x y (Rect trial)" for x y
    using that rect by (simp add: At_outside)
  have accept: "pixel_identical trial (commit_along (img2 s) trial ps)"
    unfolding pixel_identical_def using rect off out
    by (auto simp: Rect_commit_along At_commit_along)
  have reject: "pixel_identical (commit_along trial (img2 s) ps) (img2 s)"
    unfolding pixel_identical_def using rect off out
    by (auto simp: Rect_commit_along At_commit_along)
  from accept reject show ?thesis
    by (simp add: resolve_def Let_def bcopy_commit_along flip: trial_def ps_def)
qed

lemma pixel_identical_iteration:
  assumes "rast_covered rast" and "pixel_identical (img1 s) (img2 s)"
    and "iteration F rast cfg img palette w h s = Inr s'"
  shows "pixel_identical (img1 s') (img2 s')"
proof -
  from assms(3) obtain x1 y1 x2 y2 clr where
    s': "s' = poll (resolve F rast img x1 y1 x2 y2 clr
             (s\<lparr>stati := stati s + 1, rand := (\<lambda>n. rand s (n + 5))\<rparr>))"
    by (rule iteration_Inr)
  from assms(1,2) show ?thesis
    unfolding s' img1_poll img2_poll by (intro pixel_identical_resolve) simp_all
qed

lemma pixel_identical_boundary:
  assumes "rast_covered rast"
    and "boundary F rast cfg img palette w h s0 s"
    and "pixel_identical (img1 s0) (img2 s0)"
  shows "pixel_identical (img1 s) (img2 s)"
  using assms(2,3)
proof (induction rule: boundary.induct)
  case boundary_start
  then show ?case .
next
  case (boundary_step s s')
  then have "pixel_identical (img1 s) (img2 s)" by simp
  with assms(1) have "pixel_identical (img1 s') (img2 s')"
    using boundary_step.hyps(3) by (rule pixel_identical_iteration)
  then show ?case by simp
qed

text \<open>
  Claim C3.  With a rasterizer that draws only on the coordinate path of its end points: at
  every iteration boundary, that is after the initialisation and after every resolved
  iteration, the trial buffer and the best buffer are pixel-identical (everywhere, so
  also outside the last path); and after the draw of the next iteration and before its
  commit they differ at most on the coordinate path of that iteration's segment.
\<close>

theorem buffers_identical_at_boundaries:
  assumes "rast_covered rast"
    and "boundary F rast cfg img palette w h (initial_state img incr rnd clk) s"
  shows "pixel_identical (img1 s) (img2 s) \<and>
    (\<forall>x1 y1 x2 y2 clr x y. (x, y) \<notin> set (coordinate_path x1 y1 x2 y2) \<longrightarrow>
       At (Bresenham rast (img1 s) x1 y1 x2 y2 clr) x y = At (img2 s) x y)"
proof -
  have inv: "pixel_identical (img1 s) (img2 s)"
    using assms pixel_identical_initial by (rule pixel_identical_boundary)
  with assms(1) show ?thesis
    by (auto intro: At_trial_off_path)
qed

lemma candidate_a:
  "candidate cfg_a [RGBA 10 20 30 255] 3 2 (rand state_a) = Inr (0, 0, - 2, 1, RGBA 10 20 30 255)"
  by (simp add: candidate_def Intn_def cfg_a_def state_a_def initial_state_def rnd_a_def
      go_div_def signed_divide_int_def)

lemma rast_covered_path: "rast_covered coordinate_path"
  by (simp add: rast_covered_def)

theorem buffers_identical_at_boundaries_witness:
  "rast_covered coordinate_path \<and>
   (\<exists>s. boundary real_ops coordinate_path cfg_a img_a [RGBA 10 20 30 255] 3 2
          (initial_state img_a 1 rnd_a clk_a) s \<and>
        iter s = 1 \<and> pixel_identical (img1 s) (img2 s) \<and>
        At (Bresenham coordinate_path (img1 s) 0 0 2 1 (RGBA 1 2 3 4)) 1 1 = At (img2 s) 1 1)"
proof -
  obtain s' where
    it: "iteration real_ops coordinate_path cfg_a img_a [RGBA 10 20 30 255] 3 2 state_a = Inr s'"
    using candidate_a by (simp add: iteration_def)
  then have iter: "iter s' = 0"
    by (auto simp: iter_poll resolve_def Let_def state_a_def initial_state_def
        elim!: iteration_Inr)
  have "iter state_a <s iterLimit cfg_a \<or> iterLimit cfg_a <s 0"
    by (simp add: state_a_def initial_state_def cfg_a_def word_sless_alt)
  with boundary_start [of real_ops coordinate_path cfg_a img_a "[RGBA 10 20 30 255]" 3 2 state_a]
  have b: "boundary real_ops coordinate_path cfg_a img_a [RGBA 10 20 30 255] 3 2
      (initial_state img_a 1 rnd_a clk_a) (s'\<lparr>iter := iter s' + 1\<rparr>)"
    using it unfolding state_a_def by (rule boundary_step)
  have off: "(1, 1) \<notin> set (coordinate_path 0 0 (2 :: int64) 1)"
    by code_simp
  from buffers_identical_at_boundaries [OF rast_covered_path b] off
  have "pixel_identical (img1 (s'\<lparr>iter := iter s' + 1\<rparr>)) (img2 (s'\<lparr>iter := iter s' + 1\<rparr>))"
    and "At (Bresenham coordinate_path (img1 (s'\<lparr>iter := iter s' + 1\<rparr>)) 0 0 2 1 (RGBA 1 2 3 4)) 1 1 =
      At (img2 (s'\<lparr>iter := iter s' + 1\<rparr>)) 1 1"
    by blast+
  with b iter rast_covered_path show ?thesis
    by (intro conjI exI [of _ "s'\<lparr>iter := iter s' + 1\<rparr>"]) simp_all
qed

section \<open>No fault in an iteration\<close>

lemma palette_index_in_range:
  assumes "palette \<noteq> []"
  shows "nat (int r mod int (length palette)) < length palette"
proof -
  have "int r mod int (length palette) < int (length palette)"
    using assms by simp
  moreover have "0 \<le> int r mod int (length palette)"
    using assms by simp
  ultimately show ?thesis by linarith
qed

lemma candidate_total:
  assumes "0 <s w" and "0 <s h" and "0 <s lineLen cfg" and "palette \<noteq> []"
  shows "\<exists>c. candidate cfg palette w h rnd = Inr c"
  using assms palette_index_in_range [OF assms(4), of "rnd 4"]
  by (simp add: candidate_def Intn_def word_sless_alt Let_def)

lemma candidate_panic:
  assumes "candidate cfg palette w h rnd = Inl e"
  shows "e = Intn_invalid_argument \<and> (w \<le>s 0 \<or> h \<le>s 0 \<or> lineLen cfg \<le>s 0 \<or> palette = [])"
proof (cases "0 <s w \<and> 0 <s h \<and> 0 <s lineLen cfg \<and> palette \<noteq> []")
  case True
  then obtain c where "candidate cfg palette w h rnd = Inr c"
    using candidate_total by blast
  with assms show ?thesis by simp
next
  case False
  then have bad: "w \<le>s 0 \<or> h \<le>s 0 \<or> lineLen cfg \<le>s 0 \<or> palette = []"
    by (auto simp: word_sless_alt word_sle_eq)
  from assms have "e = Intn_invalid_argument"
    by (auto simp: candidate_def Intn_def Let_def palette_index_in_range
        split: if_splits sum.splits)
  with bad show ?thesis by simp
qed

lemma iteration_total:
  assumes "0 <s w" and "0 <s h" and "0 <s lineLen cfg" and "palette \<noteq> []"
  shows "\<exists>s'. iteration F rast cfg img palette w h s = Inr s'"
proof -
  from assms obtain c where "candidate cfg palette w h (rand s) = Inr c"
    using candidate_total by blast
  then show ?thesis
    by (cases c) (simp add: iteration_def)
qed

text \<open>
  Claim C10.  A read outside the bounds gives the zero colour and a write outside the
  bounds changes nothing; scoring, drawing and committing are total functions of any end
  points.  So an iteration returns whenever the width, the height and the line length are
  positive and the palette is not empty, wherever its end points lie; the only panic of
  an iteration is the argument check of \<open>rand.Intn\<close>.
\<close>

theorem iteration_never_faults:
  "(\<not> In_rect x y (Rect im) \<longrightarrow> At im x y = RGBA 0 0 0 0 \<and> Set_px im x y c = im) \<and>
   (0 <s w \<and> 0 <s h \<and> 0 <s lineLen cfg \<and> palette \<noteq> [] \<longrightarrow>
      (\<exists>s'. iteration F rast cfg img palette w h s = Inr s')) \<and>
   (\<forall>e. iteration F rast cfg img palette w h s = Inl e \<longrightarrow>
      e = Intn_invalid_argument \<and>
      (w \<le>s 0 \<or> h \<le>s 0 \<or> lineLen cfg \<le>s 0 \<or> palette = []))"
proof (intro conjI impI allI)
  assume "\<not> In_rect x y (Rect im)"
  then show "At im x y = RGBA 0 0 0 0" and "Set_px im x y c = im"
    by (simp_all add: At_outside Set_px_outside)
next
  assume "0 <s w \<and> 0 <s h \<and> 0 <s lineLen cfg \<and> palette \<noteq> []"
  then show "\<exists>s'. iteration F rast cfg img palette w h s = Inr s'"
    by (simp add: iteration_total)
next
  fix e assume "iteration F rast cfg img palette w h s = Inl e"
  then have "candidate cfg palette w h (rand s) = Inl e"
    by (auto simp: iteration_def split: sum.splits)
  then have *: "e = Intn_invalid_argument \<and>
      (w \<le>s 0 \<or> h \<le>s 0 \<or> lineLen cfg \<le>s 0 \<or> palette = [])"
    by (rule candidate_panic)
  from * show "e = Intn_invalid_argument" by simp
  from * show "w \<le>s 0 \<or> h \<le>s 0 \<or> lineLen cfg \<le>s 0 \<or> palette = []" by simp
qed

theorem iteration_never_faults_witness:
  "candidate cfg_a [RGBA 10 20 30 255] 3 2 (rand state_a) = Inr (0, 0, - 2, 1, RGBA 10 20 30 255) \<and>
   \<not> In_rect (- 2) 1 (Rect img_a) \<and>
   At img_a (- 2) 1 = RGBA 0 0 0 0 \<and> Set_px img_a (- 2) 1 (RGBA 1 2 3 4) = img_a \<and>
   (\<exists>s'. iteration real_ops coordinate_path cfg_a img_a [RGBA 10 20 30 255] 3 2 state_a = Inr s')"
proof -
  have out: "\<not> In_rect (- 2) 1 (Rect img_a)"
    by (simp add: In_rect_def img_a_def word_sle_eq word_sless_alt)
  have pos: "0 <s (3 :: int64) \<and> 0 <s (2 :: int64) \<and> 0 <s lineLen cfg_a \<and> [RGBA 10 20 30 255] \<noteq> []"
    by (simp add: cfg_a_def word_sless_alt)
  note inst = iteration_never_faults [of "- 2" 1 img_a "RGBA 1 2 3 4" 3 2 cfg_a
      "[RGBA 10 20 30 255]" real_ops coordinate_path img_a state_a]
  from inst out have "At img_a (- 2) 1 = RGBA 0 0 0 0 \<and> Set_px img_a (- 2) 1 (RGBA 1 2 3 4) = img_a"
    by blast
  moreover from inst pos
  have "\<exists>s'. iteration real_ops coordinate_path cfg_a img_a [RGBA 10 20 30 255] 3 2 state_a = Inr s'"
    by blast
  ultimately show ?thesis using candidate_a out by blast
qed

section \<open>The palette\<close>

lemma sint_succ:
  assumes "x <s (n :: int64)"
  shows "sint (x + 1) = sint x + 1"
proof -
  have "sint x < sint n" using assms by (simp add: word_sless_alt)
  moreover have "sint n < 2 ^ 63" using sint_lt [of n] by simp
  moreover have "- (2 ^ 63) \<le> sint x" using sint_ge [of x] by simp
  ultimately have "signed_take_bit 63 (sint x + 1) = sint x + 1"
    by (intro signed_take_bit_int_eq_self) simp_all
  then show ?thesis by (simp add: sint_word_ariths)
qed

lemma upto_from_sint:
  assumes "x <s (n :: int64)"
  shows "map word_of_int [sint x..sint n - 1] = x # map word_of_int [sint (x + 1)..sint n - 1]"
proof -
  have "sint x \<le> sint n - 1" using assms by (simp add: word_sless_alt)
  then have "[sint x..sint n - 1] = sint x # [sint x + 1..sint n - 1]"
    by (rule upto_rec1)
  then show ?thesis by (simp add: sint_succ [OF assms])
qed

lemma upto_from_sint_empty:
  assumes "\<not> x <s (n :: int64)"
  shows "map word_of_int [sint x..sint n - 1] = ([] :: int64 list)"
  using assms by (simp add: word_sless_alt)

lemma palette_row_foldl:
  "palette_row p img w y x st =
     foldl (\<lambda>st x. palette_add p (At img x y) st) st (map word_of_int [sint x..sint w - 1])"
proof (induction p img w y x st rule: palette_row.induct)
  case (1 p img w y x st)
  show ?case
  proof (cases "x <s w")
    case True
    then show ?thesis
      by (subst palette_row.simps) (simp add: 1 upto_from_sint)
  next
    case False
    then show ?thesis
      by (subst palette_row.simps) (simp add: upto_from_sint_empty)
  qed
qed

lemma palette_rows_foldl:
  "palette_rows p img w h y st =
     foldl (\<lambda>st y. palette_row p img w y 0 st) st (map word_of_int [sint y..sint h - 1])"
proof (induction p img w h y st rule: palette_rows.induct)
  case (1 p img w h y st)
  show ?case
  proof (cases "y <s h")
    case True
    then show ?thesis
      by (subst palette_rows.simps) (simp add: 1 upto_from_sint)
  next
    case False
    then show ?thesis
      by (subst palette_rows.simps) (simp add: upto_from_sint_empty)
  qed
qed

lemma foldl_concat_rows: "foldl f a (concat xss) = foldl (foldl f) a xss"
  by (induction xss arbitrary: a) simp_all

lemma palette_rows_scan:
  "palette_rows p img w h 0 st = foldl (\<lambda>st c. palette_add p c st) st (scan_colours img w h)"
proof -
  have row: "palette_row p img w y 0 st' =
      foldl (\<lambda>st c. palette_add p c st) st'
        (map (\<lambda>q. At img (fst q) (snd q)) (map (\<lambda>x. (x, y)) (below w)))"
    for y st'
    by (simp add: palette_row_foldl below_def foldl_map)
  show ?thesis
    unfolding palette_rows_foldl scan_colours_def row_major_def
    by (simp add: row below_def foldl_map foldl_concat_rows map_concat comp_def)
qed

lemma palette_all: "fst (foldl (\<lambda>st c. palette_add False c st) (acc, m) cs) = acc @ cs"
  by (induction cs arbitrary: acc) (simp_all add: palette_add_def)

lemma first_seen_snoc:
  "first_seen (cs @ [c]) = (if c \<in> set cs then first_seen cs else first_seen cs @ [c])"
  by (simp add: first_seen_def)

lemma palette_first_seen:
  "\<exists>m. foldl (\<lambda>st c. palette_add True c st) ([], Map.empty) cs = (first_seen cs, m) \<and>
       (\<forall>c. m c = None \<longleftrightarrow> c \<notin> set cs)"
proof (induction cs rule: rev_induct)
  case Nil
  show ?case by (simp add: first_seen_def)
next
  case (snoc c cs)
  then obtain m where
    m: "foldl (\<lambda>st c. palette_add True c st) ([], Map.empty) cs = (first_seen cs, m)"
    and dom: "\<forall>c. m c = None \<longleftrightarrow> c \<notin> set cs"
    by blast
  show ?case
  proof (cases "c \<in> set cs")
    case True
    with m dom show ?thesis
      by (intro exI [of _ m]) (auto simp: palette_add_def first_seen_snoc)
  next
    case False
    with m dom show ?thesis
      by (intro exI [of _ "m(c \<mapsto> True)"]) (auto simp: palette_add_def first_seen_snoc)
  qed
qed

lemma build_palette_all: "build_palette False img w h = scan_colours img w h"
  by (simp add: build_palette_def palette_rows_scan palette_all)

lemma build_palette_first_seen: "build_palette True img w h = first_seen (scan_colours img w h)"
  using palette_first_seen [of "scan_colours img w h"]
  by (auto simp: build_palette_def palette_rows_scan)


lemma set_first_seen: "set (first_seen xs) = set xs"
  by (simp add: first_seen_def)


lemma sint_word_of_int_small:
  assumes "0 \<le> k" and "k < sint (n :: int64)"
  shows "sint (word_of_int k :: int64) = k"
proof -
  have "sint n < 2 ^ 63" using sint_lt [of n] by simp
  with assms have "signed_take_bit 63 k = k"
    by (intro signed_take_bit_int_eq_self) simp_all
  then show ?thesis by (simp add: sint_sbintrunc')
qed

lemma set_below: "set (below n) = {x. 0 \<le>s x \<and> x <s n}"
proof (intro set_eqI iffI)
  fix x assume "x \<in> set (below n)"
  then obtain k where k: "0 \<le> k" "k < sint n" and x: "x = word_of_int k"
    by (auto simp: below_def)
  from k have "sint x = k" unfolding x by (rule sint_word_of_int_small)
  with k show "x \<in> {x. 0 \<le>s x \<and> x <s n}"
    by (simp add: word_sle_eq word_sless_alt)
next
  fix x assume "x \<in> {x. 0 \<le>s x \<and> x <s n}"
  then have "0 \<le> sint x" and "sint x < sint n"
    by (simp_all add: word_sle_eq word_sless_alt)
  then have "sint x \<in> set [0..sint n - 1]" by simp
  then have "(word_of_int (sint x) :: int64) \<in> set (below n)"
    unfolding below_def set_map by (rule imageI)
  moreover have "(word_of_int (sint x) :: int64) = x" by simp
  ultimately show "x \<in> set (below n)" by (simp only:)
qed


lemma set_row_major:
  "set (row_major w h) = {(x, y). 0 \<le>s x \<and> x <s w \<and> 0 \<le>s y \<and> y <s h}"
  by (auto simp: row_major_def set_below)



lemma Rect_copy_row: "Rect (copy_row src w y x img) = Rect img"
  by (induction src w y x img rule: copy_row.induct)
    (subst copy_row.simps, simp add: Rect_Set_px)

lemma Rect_copy_rows: "Rect (copy_rows src w h y img) = Rect img"
  by (induction src w h y img rule: copy_rows.induct)
    (subst copy_rows.simps, simp add: Rect_copy_row)

lemma Rect_target: "Rect (target src) = Rect src"
  by (simp add: target_def Rect_copy_rows NewRGBA_def)












section \<open>The loop\<close>

lemma scan_colours_empty: "w \<le>s 0 \<or> h \<le>s 0 \<Longrightarrow> scan_colours img w h = []"
proof -
  assume "w \<le>s 0 \<or> h \<le>s 0"
  then have "set (row_major w h) = {}"
    by (auto simp: set_row_major word_sle_eq word_sless_alt)
  then show ?thesis by (simp add: scan_colours_def)
qed

lemma scan_colours_nonempty: "0 <s w \<Longrightarrow> 0 <s h \<Longrightarrow> scan_colours img w h \<noteq> []"
proof -
  assume "0 <s w" and "0 <s h"
  then have "(0, 0) \<in> set (row_major w h)"
    by (simp add: set_row_major)
  then show ?thesis by (auto simp: scan_colours_def)
qed

lemma build_palette_empty: "w \<le>s 0 \<or> h \<le>s 0 \<Longrightarrow> build_palette p img w h = []"
  by (cases p) (simp_all add: build_palette_all build_palette_first_seen scan_colours_empty
      first_seen_def)

lemma build_palette_nonempty:
  assumes "0 <s w" and "0 <s h"
  shows "build_palette p img w h \<noteq> []"
proof -
  have "set (build_palette p img w h) = set (scan_colours img w h)"
    by (cases p) (simp_all add: build_palette_all build_palette_first_seen set_first_seen)
  moreover have "set (scan_colours img w h) \<noteq> {}"
    using assms by (simp add: scan_colours_nonempty)
  ultimately show ?thesis by auto
qed









lemma sketch_loop_panics:
  assumes "w \<le>s 0 \<or> h \<le>s 0" and "iterLimit cfg \<noteq> 0" and "iter s = 0"
  shows "sketch_loop (Suc fuel) F rast cfg img palette w h s = Some (Inl Intn_invalid_argument)"
proof -
  from assms(1) have "candidate cfg palette w h (rand s) = Inl Intn_invalid_argument"
    by (auto simp: candidate_def Intn_def word_sle_eq)
  then have "iteration F rast cfg img palette w h s = Inl Intn_invalid_argument"
    by (simp add: iteration_def)
  moreover have "iter s <s iterLimit cfg \<or> iterLimit cfg <s 0"
  proof -
    have "sint (iterLimit cfg) \<noteq> 0"
      using assms(2) by (metis signed_eq_0_iff)
    then show ?thesis by (auto simp: assms(3) word_sless_alt)
  qed
  ultimately show ?thesis by simp
qed




section \<open>The empty image\<close>

text \<open>
  Claim C7, as the code has it.  The palette builder never fails: it returns the empty
  palette when the image has no pixel (width or height not positive) and a non-empty one
  otherwise.  Nothing is checked before the loop: on an image without pixels every
  iteration panics in \<open>rand.Intn\<close>, so with a budget other than \<open>0\<close> the loop is entered
  and \<open>sketch\<close> ends with that panic in its first iteration.  With budget \<open>0\<close> the
  body never runs and \<open>sketch\<close> writes the background fill.
\<close>

theorem empty_image_panics_in_loop:
  "(w \<le>s 0 \<or> h \<le>s 0 \<longrightarrow> build_palette p img w h = []) \<and>
   (0 <s w \<and> 0 <s h \<longrightarrow> build_palette p img w h \<noteq> []) \<and>
   (w \<le>s 0 \<or> h \<le>s 0 \<longrightarrow>
      iteration F rast cfg img palette w h s = Inl Intn_invalid_argument) \<and>
   ((Dx (Rect src) \<le>s 0 \<or> Dy (Rect src) \<le>s 0) \<and> iterLimit cfg \<noteq> 0 \<longrightarrow>
      sketch (Suc fuel) F rast cfg src incr saveNum rnd clk = Some (Inl Intn_invalid_argument)) \<and>
   (iterLimit cfg = 0 \<longrightarrow>
      sketch (Suc fuel) F rast cfg src incr saveNum rnd clk =
        Some (Inr ([Frame_file saveNum (Draw_uniform (NewRGBA (Rect src)) bg)], incr,
                   saveNum + 1)))"
proof (intro conjI impI)
  assume "w \<le>s 0 \<or> h \<le>s 0"
  then show "build_palette p img w h = []"
    by (rule build_palette_empty)
next
  assume "0 <s w \<and> 0 <s h"
  then show "build_palette p img w h \<noteq> []"
    by (simp add: build_palette_nonempty)
next
  assume "w \<le>s 0 \<or> h \<le>s 0"
  then have "candidate cfg palette w h (rand s) = Inl Intn_invalid_argument"
    by (auto simp: candidate_def Intn_def word_sle_eq)
  then show "iteration F rast cfg img palette w h s = Inl Intn_invalid_argument"
    by (simp add: iteration_def)
next
  assume a: "(Dx (Rect src) \<le>s 0 \<or> Dy (Rect src) \<le>s 0) \<and> iterLimit cfg \<noteq> 0"
  have "sketch_loop (Suc fuel) F rast cfg (target src)
      (build_palette (palletize cfg) (target src) (Dx (Rect src)) (Dy (Rect src)))
      (Dx (Rect src)) (Dy (Rect src)) (initial_state (target src) incr rnd clk) =
      Some (Inl Intn_invalid_argument)"
    using a by (intro sketch_loop_panics) (simp_all add: initial_state_def)
  then show "sketch (Suc fuel) F rast cfg src incr saveNum rnd clk =
      Some (Inl Intn_invalid_argument)"
    by (simp add: sketch_def Let_def)
next
  assume "iterLimit cfg = 0"
  then show "sketch (Suc fuel) F rast cfg src incr saveNum rnd clk =
      Some (Inr ([Frame_file saveNum (Draw_uniform (NewRGBA (Rect src)) bg)], incr,
                 saveNum + 1))"
    by (simp add: sketch_def Let_def initial_state_def Rect_target)
qed

lemma img_empty_size: "Dx (Rect img_empty) = 0" "Dy (Rect img_empty) = 0"
  by (simp_all add: img_empty_def NewRGBA_def Dx_def Dy_def)

theorem empty_image_panics_in_loop_witness:
  "Dx (Rect img_empty) \<le>s 0 \<and> iterLimit cfg_unbounded \<noteq> 0 \<and>
   build_palette False img_empty 0 0 = [] \<and>
   0 <s (2 :: int64) \<and> build_palette True img_four 2 2 \<noteq> [] \<and>
   iteration real_ops coordinate_path cfg_unbounded img_empty [] 0 0 state_a =
     Inl Intn_invalid_argument \<and>
   sketch 1 real_ops coordinate_path cfg_unbounded img_empty 1 1 rnd_a clk_a =
     Some (Inl Intn_invalid_argument) \<and>
   sketch 1 real_ops coordinate_path cfg_zero img_empty 1 1 rnd_a clk_a =
     Some (Inr ([Frame_file 1 (Draw_uniform (NewRGBA (Rect img_empty)) bg)], 1, 2))"
proof -
  have e: "Dx (Rect img_empty) \<le>s 0" and z: "(0 :: int64) \<le>s 0" and p: "0 <s (2 :: int64)"
    by (simp_all add: img_empty_size word_sle_eq word_sless_alt)
  have u: "iterLimit cfg_unbounded \<noteq> 0"
    by (simp add: cfg_unbounded_def)
  from empty_image_panics_in_loop [of 0 0 False img_empty real_ops coordinate_path
      cfg_unbounded "[]" state_a img_empty 0 1 1 rnd_a clk_a] e z u
  have "build_palette False img_empty 0 0 = []"
    and "iteration real_ops coordinate_path cfg_unbounded img_empty [] 0 0 state_a =
      Inl Intn_invalid_argument"
    and "sketch 1 real_ops coordinate_path cfg_unbounded img_empty 1 1 rnd_a clk_a =
      Some (Inl Intn_invalid_argument)"
    by simp_all
  moreover from empty_image_panics_in_loop [of 2 2 True img_four] p
  have "build_palette True img_four 2 2 \<noteq> []"
    by blast
  moreover have "iterLimit cfg_zero = 0"
    by (simp add: cfg_zero_def)
  with empty_image_panics_in_loop [of 0 0 False img_empty real_ops coordinate_path
      cfg_zero "[]" state_a img_empty 0 1 1 rnd_a clk_a]
  have "sketch 1 real_ops coordinate_path cfg_zero img_empty 1 1 rnd_a clk_a =
     Some (Inr ([Frame_file 1 (Draw_uniform (NewRGBA (Rect img_empty)) bg)], 1, 2))"
    by simp
  ultimately show ?thesis using e u p by blast
qed

text \<open>
  The empty image with budget \<open>1\<close>: the palette is empty, the loop condition holds at
  the start, the body panics, and that panic is the result of \<open>sketch\<close>.
\<close>

theorem empty_image_not_rejected_before_loop:
  "build_palette True (target img_empty) (Dx (Rect img_empty)) (Dy (Rect img_empty)) = [] \<and>
   iter (initial_state (target img_empty) 1 rnd_a clk_a) <s iterLimit cfg_a \<and>
   iteration real_ops coordinate_path cfg_a (target img_empty) []
     (Dx (Rect img_empty)) (Dy (Rect img_empty)) (initial_state (target img_empty) 1 rnd_a clk_a) =
     Inl Intn_invalid_argument \<and>
   sketch 2 real_ops coordinate_path cfg_a img_empty 1 1 rnd_a clk_a =
     Some (Inl Intn_invalid_argument)"
proof -
  have pal: "build_palette p (target img_empty) (Dx (Rect img_empty)) (Dy (Rect img_empty)) = []"
    for p
    by (rule build_palette_empty) (simp add: img_empty_size word_sle_eq)
  have enter: "iter (initial_state (target img_empty) 1 rnd_a clk_a) <s iterLimit cfg_a"
    by (simp add: initial_state_def cfg_a_def word_sless_alt)
  have "candidate cfg_a [] (Dx (Rect img_empty)) (Dy (Rect img_empty))
      (rand (initial_state (target img_empty) 1 rnd_a clk_a)) = Inl Intn_invalid_argument"
    by (simp add: candidate_def Intn_def img_empty_size)
  then have body: "iteration real_ops coordinate_path cfg_a (target img_empty) []
     (Dx (Rect img_empty)) (Dy (Rect img_empty)) (initial_state (target img_empty) 1 rnd_a clk_a) =
     Inl Intn_invalid_argument"
    by (simp add: iteration_def)
  have "sketch 2 real_ops coordinate_path cfg_a img_empty 1 1 rnd_a clk_a =
     Some (Inl Intn_invalid_argument)"
    using enter body by (simp add: sketch_def Let_def pal numeral_2_eq_2)
  with pal enter body show ?thesis by simp
qed

end
